theory Spec2Isabelle
  imports Main "HOL-Library.Word"
begin

unbundle bit_operations_syntax

section \<open>JavaScript values\<close>

text \<open>
  Requests, responses and upstream payloads are JSON-shaped JavaScript values. An object is
  the list of its own enumerable properties in enumeration order (for keys that are not
  array indices this is insertion order, which is what \<open>JSON.stringify\<close> walks); keys of
  one object are distinct. A number is an integer of magnitude below \<open>2 ^ 53\<close> (\<open>JNum\<close>,
  with \<open>-0\<close> as \<open>0\<close>), \<open>NaN\<close>, an infinity, or any other finite number, which is given by
  the decimal text that Number-to-string produces for it (\<open>JDec\<close>, as in \<open>0.7\<close> or
  \<open>1e+21\<close>).
\<close>

datatype jsval =
    JUndefined
  | JNull
  | JBool bool
  | JNum int
  | JDec string
  | JNaN
  | JInfinity
  | JNegInfinity
  | JStr string
  | JArr "jsval list"
  | JObj "(string \<times> jsval) list"

text \<open>ToBoolean, as used by \<open>&&\<close>, \<open>||\<close>, \<open>!\<close>, \<open>?:\<close> and \<open>if\<close>.\<close>

fun truthy :: "jsval \<Rightarrow> bool" where
  "truthy JUndefined = False"
| "truthy JNull = False"
| "truthy (JBool b) = b"
| "truthy (JNum n) = (n \<noteq> 0)"
| "truthy (JDec d) = True"
| "truthy JNaN = False"
| "truthy JInfinity = True"
| "truthy JNegInfinity = True"
| "truthy (JStr s) = (s \<noteq> [])"
| "truthy (JArr xs) = True"
| "truthy (JObj kvs) = True"

fun nullish :: "jsval \<Rightarrow> bool" where
  "nullish JUndefined = True"
| "nullish JNull = True"
| "nullish v = False"

text \<open>\<open>typeof v === 'object'\<close>: objects, arrays and \<open>null\<close>.\<close>

fun typeof_object :: "jsval \<Rightarrow> bool" where
  "typeof_object JNull = True"
| "typeof_object (JArr xs) = True"
| "typeof_object (JObj kvs) = True"
| "typeof_object v = False"

fun typeof_string :: "jsval \<Rightarrow> bool" where
  "typeof_string (JStr s) = True"
| "typeof_string v = False"

text \<open>
  A thrown value: an \<open>Error\<close> object with its \<open>message\<close>, its \<open>code\<close> property (absent on a
  plain \<open>Error\<close>) and, for an HTTP error of the client library, its \<open>response\<close> (status and
  payload).
\<close>

datatype js_error = JsError (err_message: string) (err_code: "string option")
  (err_response: "(int \<times> jsval) option")

definition type_error :: js_error where
  "type_error = JsError ''TypeError: Cannot read properties of null or undefined'' None None"

text \<open>
  Reading a property \<open>v.k\<close>. It throws a TypeError on \<open>null\<close> and \<open>undefined\<close>. On an object
  it is the own property or \<open>undefined\<close>; primitives and arrays have none of the properties
  this program reads (\<open>jsonrpc\<close>, \<open>method\<close>, \<open>id\<close>, \<open>params\<close>, \<open>error\<close>, \<open>code\<close>), so the
  read is \<open>undefined\<close> there.
\<close>

fun prop_of :: "jsval \<Rightarrow> string \<Rightarrow> jsval" where
  "prop_of (JObj kvs) k = (case map_of kvs k of None \<Rightarrow> JUndefined | Some v \<Rightarrow> v)"
| "prop_of v k = JUndefined"

definition getProp :: "jsval \<Rightarrow> string \<Rightarrow> js_error + jsval" where
  "getProp v k = (if nullish v then Inl type_error else Inr (prop_of v k))"

section \<open>Strings of values\<close>

function show_nat :: "nat \<Rightarrow> string" where
  "show_nat n =
     (if n < 10 then [''0123456789'' ! n]
      else show_nat (n div 10) @ [''0123456789'' ! (n mod 10)])"
  by pat_completeness auto
termination
  by (relation "measure (\<lambda>n. n)") auto

definition show_int :: "int \<Rightarrow> string" where
  "show_int i = (if i < 0 then ''-'' @ show_nat (nat (- i)) else show_nat (nat i))"

fun join_comma :: "string list \<Rightarrow> string" where
  "join_comma [] = []"
| "join_comma [x] = x"
| "join_comma (x # y # ys) = x @ '','' @ join_comma (y # ys)"

text \<open>
  ToString, as applied by a template literal \<open>`${v}`\<close> and by a computed property key
  \<open>table[v]\<close>.
\<close>

fun js_toString :: "jsval \<Rightarrow> string" where
  "js_toString JUndefined = ''undefined''"
| "js_toString JNull = ''null''"
| "js_toString (JBool b) = (if b then ''true'' else ''false'')"
| "js_toString (JNum n) = show_int n"
| "js_toString (JDec d) = d"
| "js_toString JNaN = ''NaN''"
| "js_toString JInfinity = ''Infinity''"
| "js_toString JNegInfinity = ''-Infinity''"
| "js_toString (JStr s) = s"
| "js_toString (JArr xs) =
     join_comma (map (\<lambda>x. if nullish x then [] else js_toString x) xs)"
| "js_toString (JObj kvs) = ''[object Object]''"

text \<open>
  \<open>JSON.stringify\<close>. A string is quoted with \<open>"\<close> and \<open>\\<close> escaped and control
  characters written as escapes; strings are ASCII here.
\<close>

definition json_escape :: "char \<Rightarrow> string" where
  "json_escape c =
     (if c = CHR 0x22 then [CHR 0x5C, CHR 0x22]
      else if c = CHR 0x5C then [CHR 0x5C, CHR 0x5C]
      else if c = CHR 0x08 then [CHR 0x5C, CHR ''b'']
      else if c = CHR 0x09 then [CHR 0x5C, CHR ''t'']
      else if c = CHR 0x0A then [CHR 0x5C, CHR ''n'']
      else if c = CHR 0x0C then [CHR 0x5C, CHR ''f'']
      else if c = CHR 0x0D then [CHR 0x5C, CHR ''r'']
      else if (of_char c :: nat) < 32
        then [CHR 0x5C, CHR ''u'', CHR ''0'', CHR ''0'',
              ''0123456789abcdef'' ! ((of_char c :: nat) div 16),
              ''0123456789abcdef'' ! ((of_char c :: nat) mod 16)]
      else [c])"

definition json_quote :: "string \<Rightarrow> string" where
  "json_quote s = [CHR 0x22] @ concat (map json_escape s) @ [CHR 0x22]"

text \<open>
  The serialization of one value, \<open>None\<close> where \<open>JSON.stringify\<close> gives \<open>undefined\<close>.
  An \<open>undefined\<close> array element is written \<open>null\<close>, an \<open>undefined\<close> property is left
  out, and the properties of an object are written in their enumeration order. A finite
  number is written as by ToString; \<open>NaN\<close> and the infinities are written \<open>null\<close>.
\<close>

fun JSON_ser :: "jsval \<Rightarrow> string option" where
  "JSON_ser JUndefined = None"
| "JSON_ser JNull = Some ''null''"
| "JSON_ser (JBool b) = Some (if b then ''true'' else ''false'')"
| "JSON_ser (JNum n) = Some (show_int n)"
| "JSON_ser (JDec d) = Some d"
| "JSON_ser JNaN = Some ''null''"
| "JSON_ser JInfinity = Some ''null''"
| "JSON_ser JNegInfinity = Some ''null''"
| "JSON_ser (JStr s) = Some (json_quote s)"
| "JSON_ser (JArr xs) =
     Some (''['' @ join_comma (map (\<lambda>x. case JSON_ser x of None \<Rightarrow> ''null'' | Some t \<Rightarrow> t) xs)
             @ '']'')"
| "JSON_ser (JObj kvs) =
     Some (''{'' @ join_comma (concat (map (\<lambda>(k, v). case JSON_ser v of None \<Rightarrow> []
                                   | Some t \<Rightarrow> [json_quote k @ '':'' @ t]) kvs))
             @ ''}'')"


section \<open>MD5 (the digest of \<open>crypto.createHash('md5')\<close>, RFC 1321)\<close>

type_synonym w32 = "32 word"

definition md5_K :: "w32 list" where
  "md5_K =
   [0xd76aa478, 0xe8c7b756, 0x242070db, 0xc1bdceee, 0xf57c0faf, 0x4787c62a, 0xa8304613, 0xfd469501,
    0x698098d8, 0x8b44f7af, 0xffff5bb1, 0x895cd7be, 0x6b901122, 0xfd987193, 0xa679438e, 0x49b40821,
    0xf61e2562, 0xc040b340, 0x265e5a51, 0xe9b6c7aa, 0xd62f105d, 0x02441453, 0xd8a1e681, 0xe7d3fbc8,
    0x21e1cde6, 0xc33707d6, 0xf4d50d87, 0x455a14ed, 0xa9e3e905, 0xfcefa3f8, 0x676f02d9, 0x8d2a4c8a,
    0xfffa3942, 0x8771f681, 0x6d9d6122, 0xfde5380c, 0xa4beea44, 0x4bdecfa9, 0xf6bb4b60, 0xbebfbc70,
    0x289b7ec6, 0xeaa127fa, 0xd4ef3085, 0x04881d05, 0xd9d4d039, 0xe6db99e5, 0x1fa27cf8, 0xc4ac5665,
    0xf4292244, 0x432aff97, 0xab9423a7, 0xfc93a039, 0x655b59c3, 0x8f0ccc92, 0xffeff47d, 0x85845dd1,
    0x6fa87e4f, 0xfe2ce6e0, 0xa3014314, 0x4e0811a1, 0xf7537e82, 0xbd3af235, 0x2ad7d2bb, 0xeb86d391]"

definition md5_S :: "nat list" where
  "md5_S =
   [7, 12, 17, 22, 7, 12, 17, 22, 7, 12, 17, 22, 7, 12, 17, 22,
    5, 9, 14, 20, 5, 9, 14, 20, 5, 9, 14, 20, 5, 9, 14, 20,
    4, 11, 16, 23, 4, 11, 16, 23, 4, 11, 16, 23, 4, 11, 16, 23,
    6, 10, 15, 21, 6, 10, 15, 21, 6, 10, 15, 21, 6, 10, 15, 21]"

definition md5_F :: "nat \<Rightarrow> w32 \<Rightarrow> w32 \<Rightarrow> w32 \<Rightarrow> w32" where
  "md5_F i b c d =
     (if i < 16 then (b AND c) OR (NOT b AND d)
      else if i < 32 then (d AND b) OR (NOT d AND c)
      else if i < 48 then b XOR c XOR d
      else c XOR (b OR NOT d))"

definition md5_g :: "nat \<Rightarrow> nat" where
  "md5_g i =
     (if i < 16 then i
      else if i < 32 then (5 * i + 1) mod 16
      else if i < 48 then (3 * i + 5) mod 16
      else (7 * i) mod 16)"

definition md5_step :: "w32 list \<Rightarrow> w32 \<times> w32 \<times> w32 \<times> w32 \<Rightarrow> nat \<Rightarrow> w32 \<times> w32 \<times> w32 \<times> w32" where
  "md5_step m st i =
     (case st of (a, b, c, d) \<Rightarrow>
        (d, b + word_rotl (md5_S ! i) (md5_F i b c d + a + md5_K ! i + m ! md5_g i), b, c))"

definition md5_block :: "w32 \<times> w32 \<times> w32 \<times> w32 \<Rightarrow> w32 list \<Rightarrow> w32 \<times> w32 \<times> w32 \<times> w32" where
  "md5_block h m =
     (case h of (a0, b0, c0, d0) \<Rightarrow>
        (case foldl (md5_step m) h [0..<64] of (a, b, c, d) \<Rightarrow> (a0 + a, b0 + b, c0 + c, d0 + d)))"

fun md5_words :: "char list \<Rightarrow> w32 list" where
  "md5_words (b0 # b1 # b2 # b3 # bs) =
     (word_of_nat (of_char b0) + 256 * word_of_nat (of_char b1) + 65536 * word_of_nat (of_char b2)
        + 16777216 * word_of_nat (of_char b3)) # md5_words bs"
| "md5_words bs = []"

definition md5_pad :: "string \<Rightarrow> w32 list" where
  "md5_pad s =
     md5_words (s @ [CHR 0x80] @ replicate ((119 - length s mod 64) mod 64) (CHR 0x00))
       @ (let n = (word_of_nat (8 * length s) :: 64 word) in [ucast n, ucast (drop_bit 32 n)])"

definition le_bytes :: "w32 \<Rightarrow> nat list" where
  "le_bytes w = map (\<lambda>i. unat (drop_bit (8 * i) w AND 0xff)) [0, 1, 2, 3]"

primrec md5_blocks :: "nat \<Rightarrow> w32 \<times> w32 \<times> w32 \<times> w32 \<Rightarrow> w32 list \<Rightarrow> w32 \<times> w32 \<times> w32 \<times> w32" where
  "md5_blocks 0 h ws = h"
| "md5_blocks (Suc n) h ws = md5_blocks n (md5_block h (take 16 ws)) (drop 16 ws)"

definition hex_byte :: "nat \<Rightarrow> string" where
  "hex_byte b = [''0123456789abcdef'' ! (b div 16), ''0123456789abcdef'' ! (b mod 16)]"

text \<open>\<open>update(s).digest('hex')\<close>: the digest of the bytes of \<open>s\<close> in lower-case hex.\<close>

definition md5_hex :: "string \<Rightarrow> string" where
  "md5_hex s =
     (let ws = md5_pad s
      in case md5_blocks (length ws div 16) (0x67452301, 0xefcdab89, 0x98badcfe, 0x10325476) ws of
           (a, b, c, d) \<Rightarrow> concat (map hex_byte (concat (map le_bytes [a, b, c, d]))))"


section \<open>Circuit breaker (circuit-breaker module)\<close>

datatype cb_state = CLOSED | OPEN | HALF_OPEN

record cb_options =
  opt_failureThreshold :: int
  opt_recoveryTimeout :: int
  opt_monitoringPeriod :: int

record circuit_breaker =
  serverId :: string
  failureThreshold :: int
  recoveryTimeout :: int
  monitoringPeriod :: int
  state :: cb_state
  failureCount :: int
  successCount :: int
  nextAttempt :: int
  lastFailureTime :: "int option"
  totalRequests :: int
  totalFailures :: int
  totalSuccesses :: int
  circuitBreakerTrips :: int

text \<open>\<open>a || d\<close> on numbers: the default replaces a zero.\<close>

definition or_default :: "int \<Rightarrow> int \<Rightarrow> int" where
  "or_default a d = (if a = 0 then d else a)"

text \<open>The constructor; \<open>now\<close> is the value of \<open>Date.now()\<close> when it runs.\<close>

definition new_CircuitBreaker :: "string \<Rightarrow> cb_options \<Rightarrow> int \<Rightarrow> circuit_breaker" where
  "new_CircuitBreaker sid opts now =
     \<lparr> serverId = sid,
       failureThreshold = or_default (opt_failureThreshold opts) 5,
       recoveryTimeout = or_default (opt_recoveryTimeout opts) 30000,
       monitoringPeriod = or_default (opt_monitoringPeriod opts) 60000,
       state = CLOSED,
       failureCount = 0,
       successCount = 0,
       nextAttempt = now,
       lastFailureTime = None,
       totalRequests = 0,
       totalFailures = 0,
       totalSuccesses = 0,
       circuitBreakerTrips = 0 \<rparr>"

definition trip :: "int \<Rightarrow> circuit_breaker \<Rightarrow> circuit_breaker" where
  "trip now cb =
     cb\<lparr> state := OPEN,
         nextAttempt := now + recoveryTimeout cb,
         circuitBreakerTrips := circuitBreakerTrips cb + 1 \<rparr>"

definition reset :: "int \<Rightarrow> circuit_breaker \<Rightarrow> circuit_breaker" where
  "reset now cb =
     cb\<lparr> state := CLOSED, failureCount := 0, successCount := 0, nextAttempt := now \<rparr>"

definition onSuccess :: "int \<Rightarrow> circuit_breaker \<Rightarrow> circuit_breaker" where
  "onSuccess now cb =
     (let cb1 = cb\<lparr> totalSuccesses := totalSuccesses cb + 1,
                     successCount := successCount cb + 1 \<rparr>
      in if state cb1 = HALF_OPEN then reset now cb1
         else if state cb1 = CLOSED
           then cb1\<lparr> failureCount := max 0 (failureCount cb1 - 1) \<rparr>
         else cb1)"

definition onFailure :: "int \<Rightarrow> circuit_breaker \<Rightarrow> circuit_breaker" where
  "onFailure now cb =
     (let cb1 = cb\<lparr> totalFailures := totalFailures cb + 1,
                     failureCount := failureCount cb + 1,
                     lastFailureTime := Some now \<rparr>
      in if state cb1 = CLOSED \<and> failureCount cb1 \<ge> failureThreshold cb1 then trip now cb1
         else if state cb1 = HALF_OPEN then trip now cb1
         else cb1)"

text \<open>
  The error \<open>execute\<close> throws while the breaker is open. Its message is Chinese text in the
  source and is written in English here; its \<open>code\<close> is what \<open>processRequest\<close> tests.
\<close>

definition circuit_open_error :: "string \<Rightarrow> js_error" where
  "circuit_open_error sid =
     JsError (''circuit breaker open - service '' @ sid @ '' temporarily unavailable'')
       (Some ''CIRCUIT_BREAKER_OPEN'') None"

text \<open>
  \<open>execute\<close> suspends at \<open>await fn()\<close>, so it is two steps. \<open>execute_enter\<close> is the part
  before the protected call is started: it counts the request and either throws the
  circuit-open error (\<open>Inl\<close>) or lets the call start (\<open>Inr\<close>). \<open>execute_exit\<close> is
  the part that runs when the protected call has settled. Other calls of \<open>execute\<close> on the
  same breaker may run between the two.
\<close>

definition execute_enter :: "int \<Rightarrow> circuit_breaker \<Rightarrow> (js_error + unit) \<times> circuit_breaker" where
  "execute_enter now cb =
     (let cb1 = cb\<lparr> totalRequests := totalRequests cb + 1 \<rparr>
      in if state cb1 = OPEN
         then (if now < nextAttempt cb1
               then (Inl (circuit_open_error (serverId cb1)), cb1)
               else (Inr (), cb1\<lparr> state := HALF_OPEN \<rparr>))
         else (Inr (), cb1))"

definition execute_exit :: "int \<Rightarrow> js_error + 'a \<Rightarrow> circuit_breaker \<Rightarrow> circuit_breaker" where
  "execute_exit now outcome cb =
     (case outcome of Inr r \<Rightarrow> onSuccess now cb | Inl e \<Rightarrow> onFailure now cb)"

text \<open>
  The world outside the process: the clock read by \<open>Date.now()\<close> and two counters that
  record how often the upstream was called and how many tasks were handed to the global
  queue.
\<close>

record world =
  clock :: int
  netCalls :: nat
  queueAdds :: nat

text \<open>
  \<open>execute\<close> for one call running alone: enter, run the protected call \<open>fn\<close> (which may
  change the world), exit at the time the call settled.
\<close>

definition execute ::
  "(world \<Rightarrow> (js_error + 'a) \<times> world) \<Rightarrow> circuit_breaker \<Rightarrow> world
     \<Rightarrow> (js_error + 'a) \<times> circuit_breaker \<times> world" where
  "execute fn cb w =
     (case execute_enter (clock w) cb of
        (Inl e, cb1) \<Rightarrow> (Inl e, cb1, w)
      | (Inr u, cb1) \<Rightarrow>
          (case fn w of (outcome, w1) \<Rightarrow> (outcome, execute_exit (clock w1) outcome cb1, w1)))"

section \<open>Error responses (errors module)\<close>

definition INVALID_REQUEST :: int where "INVALID_REQUEST = - 32600"
definition METHOD_NOT_FOUND :: int where "METHOD_NOT_FOUND = - 32601"
definition INVALID_PARAMS :: int where "INVALID_PARAMS = - 32602"
definition INTERNAL_ERROR :: int where "INTERNAL_ERROR = - 32603"
definition SERVER_UNAVAILABLE :: int where "SERVER_UNAVAILABLE = - 32001"
definition REQUEST_TIMEOUT :: int where "REQUEST_TIMEOUT = - 32002"
definition CIRCUIT_BREAKER_OPEN :: int where "CIRCUIT_BREAKER_OPEN = - 32003"
definition PROXY_ERROR :: int where "PROXY_ERROR = - 32004"

text \<open>
  \<open>createErrorResponse(code, message, data = null, id = null)\<close>. A parameter default
  replaces an argument that is \<open>undefined\<close> (or not passed); the \<open>data\<close> and \<open>id\<close> keys are
  added only when the value is not \<open>null\<close>.
\<close>

definition createErrorResponse :: "int \<Rightarrow> string \<Rightarrow> jsval \<Rightarrow> jsval \<Rightarrow> jsval" where
  "createErrorResponse code message data_arg id_arg =
     (let data = (if data_arg = JUndefined then JNull else data_arg);
          rid = (if id_arg = JUndefined then JNull else id_arg)
      in JObj ([(''jsonrpc'', JStr ''2.0''),
                (''error'', JObj ([(''code'', JNum code), (''message'', JStr message)]
                                   @ (if data \<noteq> JNull then [(''data'', data)] else [])))]
               @ (if rid \<noteq> JNull then [(''id'', rid)] else [])))"

text \<open>
  \<open>handleProxyError(error, serverId)\<close>. The message literals of the source are Chinese
  text; they are written here in English, no property depends on them. Every call of
  \<open>createErrorResponse\<close> here passes three arguments, so \<open>id\<close> is \<open>undefined\<close>.
\<close>

definition handleProxyError :: "js_error \<Rightarrow> string \<Rightarrow> jsval" where
  "handleProxyError error sid =
     (if err_code error = Some ''ECONNREFUSED'' \<or> err_code error = Some ''ENOTFOUND''
      then createErrorResponse SERVER_UNAVAILABLE
             (''cannot connect to Dify service ('' @ sid @ '')'')
             (JObj [(''retry_after'', JNum 30), (''server_id'', JStr sid)]) JUndefined
      else if err_code error = Some ''ETIMEDOUT'' \<or> err_code error = Some ''ECONNABORTED''
      then createErrorResponse REQUEST_TIMEOUT ''request timed out, retry later''
             (JObj [(''timeout'', JBool True), (''server_id'', JStr sid)]) JUndefined
      else (case err_response error of
              Some (status, payload) \<Rightarrow>
                createErrorResponse PROXY_ERROR (''Dify server error: '' @ show_int status)
                  (JObj [(''status_code'', JNum status), (''server_id'', JStr sid),
                         (''response_data'', payload)]) JUndefined
            | None \<Rightarrow>
                createErrorResponse INTERNAL_ERROR ''internal server error''
                  (JObj [(''server_id'', JStr sid)]) JUndefined))"

text \<open>The \<open>error.code\<close> of a response, when it is an error response with a numeric code.\<close>

definition response_code :: "jsval \<Rightarrow> int option" where
  "response_code r =
     (case prop_of (prop_of r ''error'') ''code'' of JNum c \<Rightarrow> Some c | _ \<Rightarrow> None)"

definition has_key :: "jsval \<Rightarrow> string \<Rightarrow> bool" where
  "has_key r k = (case r of JObj kvs \<Rightarrow> k \<in> set (map fst kvs) | _ \<Rightarrow> False)"

section \<open>Cache (cache module)\<close>

text \<open>
  The store is the \<open>node-cache\<close> instance: each key with its value and the time (ms) at
  which it expires. \<open>get\<close> gives \<open>undefined\<close> for a missing or expired key and deletes an
  expired one; \<open>set\<close> throws when the store already holds \<open>maxKeys\<close> keys, else replaces
  or adds the key with expiry \<open>now + ttl * 1000\<close> (expiry 0, never, for a \<open>ttl\<close> of 0).
  The periodic sweep of expired keys is not modelled.
\<close>

type_synonym nc_store = "(string \<times> jsval \<times> int) list"

definition maxKeys :: nat where "maxKeys = 1000"

definition cache_full_error :: js_error where
  "cache_full_error = JsError ''Cache max keys amount exceeded'' None None"

definition nc_get :: "int \<Rightarrow> string \<Rightarrow> nc_store \<Rightarrow> jsval \<times> nc_store" where
  "nc_get now k es =
     (case map_of es k of
        None \<Rightarrow> (JUndefined, es)
      | Some (v, t) \<Rightarrow>
          if t \<noteq> 0 \<and> t < now then (JUndefined, filter (\<lambda>e. fst e \<noteq> k) es) else (v, es))"

definition nc_set :: "int \<Rightarrow> string \<Rightarrow> jsval \<Rightarrow> int \<Rightarrow> nc_store \<Rightarrow> js_error + nc_store" where
  "nc_set now k v ttl es =
     (if length es \<ge> maxKeys then Inl cache_full_error
      else Inr ((k, v, if ttl = 0 then 0 else now + ttl * 1000) # filter (\<lambda>e. fst e \<noteq> k) es))"

record cache_manager =
  entries :: nc_store
  hits :: nat
  misses :: nat
  sets :: nat

definition new_CacheManager :: cache_manager where
  "new_CacheManager = \<lparr> entries = [], hits = 0, misses = 0, sets = 0 \<rparr>"

text \<open>
  The table \<open>cacheTTL\<close> (seconds). A key it does not hold reads as \<open>undefined\<close>, or as an
  inherited member of \<open>Object.prototype\<close>, which is not a positive number either.
\<close>

definition cacheTTL :: "string \<Rightarrow> int option" where
  "cacheTTL = map_of [(''initialize'', 600), (''tools/list'', 300), (''tools/call'', 0)]"

definition shouldCache :: "jsval \<Rightarrow> bool" where
  "shouldCache method =
     (case cacheTTL (js_toString method) of None \<Rightarrow> False | Some ttl \<Rightarrow> ttl > 0)"

definition getCacheTTL :: "jsval \<Rightarrow> int" where
  "getCacheTTL method =
     (case cacheTTL (js_toString method) of None \<Rightarrow> 0 | Some ttl \<Rightarrow> or_default ttl 0)"

definition invalid_arg_error :: js_error where
  "invalid_arg_error =
     JsError ''The data argument must be of type string'' (Some ''ERR_INVALID_ARG_TYPE'') None"

text \<open>
  \<open>generateCacheKey\<close>: the destructuring throws on \<open>null\<close> and \<open>undefined\<close>; the digest is
  taken of \<open>JSON.stringify(params)\<close> when \<open>params\<close> is truthy.
\<close>

definition generateCacheKey :: "string \<Rightarrow> jsval \<Rightarrow> js_error + string" where
  "generateCacheKey sid mcpRequest =
     (if nullish mcpRequest then Inl type_error
      else let method = prop_of mcpRequest ''method'';
               params = prop_of mcpRequest ''params''
           in if truthy params
              then (case JSON_ser params of
                      None \<Rightarrow> Inl invalid_arg_error
                    | Some js \<Rightarrow> Inr (sid @ '':'' @ js_toString method @ '':'' @ md5_hex js))
              else Inr (sid @ '':'' @ js_toString method @ '':'' @ ''no-params''))"

text \<open>\<open>get(serverId, mcpRequest)\<close>; the result \<open>null\<close> is a miss.\<close>

definition cache_get ::
  "string \<Rightarrow> jsval \<Rightarrow> int \<Rightarrow> cache_manager \<Rightarrow> js_error + (jsval \<times> cache_manager)" where
  "cache_get sid mcpRequest now cm =
     (case getProp mcpRequest ''method'' of
        Inl e \<Rightarrow> Inl e
      | Inr method \<Rightarrow>
          if \<not> shouldCache method then Inr (JNull, cm)
          else (case generateCacheKey sid mcpRequest of
                  Inl e \<Rightarrow> Inl e
                | Inr key \<Rightarrow>
                    (case nc_get now key (entries cm) of
                       (cached, es) \<Rightarrow>
                         if truthy cached
                         then Inr (cached, cm\<lparr> entries := es, hits := hits cm + 1 \<rparr>)
                         else Inr (JNull, cm\<lparr> entries := es, misses := misses cm + 1 \<rparr>))))"

text \<open>\<open>set(serverId, mcpRequest, response)\<close>.\<close>

definition cache_set ::
  "string \<Rightarrow> jsval \<Rightarrow> jsval \<Rightarrow> int \<Rightarrow> cache_manager \<Rightarrow> js_error + cache_manager" where
  "cache_set sid mcpRequest response now cm =
     (case getProp mcpRequest ''method'' of
        Inl e \<Rightarrow> Inl e
      | Inr method \<Rightarrow>
          if \<not> shouldCache method then Inr cm
          else (case getProp response ''error'' of
                  Inl e \<Rightarrow> Inl e
                | Inr err \<Rightarrow>
                    if truthy err then Inr cm
                    else (case generateCacheKey sid mcpRequest of
                            Inl e \<Rightarrow> Inl e
                          | Inr key \<Rightarrow>
                              (case nc_set now key response (getCacheTTL method) (entries cm) of
                                 Inl e \<Rightarrow> Inl e
                               | Inr es \<Rightarrow> Inr (cm\<lparr> entries := es, sets := sets cm + 1 \<rparr>)))))"

section \<open>Proxy manager (proxy module)\<close>

record proxy_config =
  maxConcurrentRequests :: int
  requestTimeout :: int
  connectionTimeout :: int
  retryAttempts :: nat
  retryDelay :: int
  maxRetryDelay :: int
  difyBaseUrl :: string

definition default_config :: proxy_config where
  "default_config =
     \<lparr> maxConcurrentRequests = 50, requestTimeout = 35000, connectionTimeout = 8000,
       retryAttempts = 3, retryDelay = 500, maxRetryDelay = 3000,
       difyBaseUrl = ''http://dify.ireborn.com.cn'' \<rparr>"

text \<open>
  The two callbacks \<open>setupAxiosRetry\<close> hands to the retry library. \<open>retryCount\<close> is the
  number of the retry, counted from 1 by the library. \<open>is_network_error\<close> stands for the
  library's own classification \<open>isNetworkOrIdempotentRequestError\<close>, which is not part
  of this repository and is taken as a parameter.
\<close>

definition retryDelay_callback :: "proxy_config \<Rightarrow> nat \<Rightarrow> int" where
  "retryDelay_callback cfg retryCount =
     min (retryDelay cfg * 2 ^ (retryCount - 1)) (maxRetryDelay cfg)"

definition retryCondition :: "(js_error \<Rightarrow> bool) \<Rightarrow> js_error \<Rightarrow> bool" where
  "retryCondition is_network_error error =
     (is_network_error error \<or>
      (case err_response error of None \<Rightarrow> False | Some (status, payload) \<Rightarrow> status \<ge> 500))"

text \<open>
  The retry library's loop, as its documentation describes it: a failed attempt is
  repeated while fewer than \<open>retries\<close> retries have been made and the retry condition holds
  for its error; before retry number \<open>k\<close> it waits \<open>delay k\<close>. \<open>attempt k\<close> is the outcome
  of the attempt made after \<open>k\<close> retries. The result is the final outcome and the delays
  waited, in order. The first argument is the number of retries still allowed.
\<close>

fun axios_retry ::
  "nat \<Rightarrow> nat \<Rightarrow> (js_error \<Rightarrow> bool) \<Rightarrow> (nat \<Rightarrow> int) \<Rightarrow> (nat \<Rightarrow> js_error + 'a)
     \<Rightarrow> (js_error + 'a) \<times> int list" where
  "axios_retry 0 k cond delay attempt = (attempt k, [])"
| "axios_retry (Suc r) k cond delay attempt =
     (case attempt k of
        Inr x \<Rightarrow> (Inr x, [])
      | Inl e \<Rightarrow>
          if cond e
          then (case axios_retry r (Suc k) cond delay attempt of
                  (res, ds) \<Rightarrow> (res, delay (Suc k) # ds))
          else (Inl e, []))"

definition post_with_retry ::
  "proxy_config \<Rightarrow> (js_error \<Rightarrow> bool) \<Rightarrow> (nat \<Rightarrow> js_error + 'a) \<Rightarrow> (js_error + 'a) \<times> int list" where
  "post_with_retry cfg is_network_error attempt =
     axios_retry (retryAttempts cfg) 0 (retryCondition is_network_error)
       (retryDelay_callback cfg) attempt"

record proxy_manager =
  config :: proxy_config
  cacheManager :: cache_manager
  defaultOptions :: cb_options
  breakers :: "string \<rightharpoonup> circuit_breaker"

definition new_ProxyManager :: "proxy_config \<Rightarrow> proxy_manager" where
  "new_ProxyManager cfg =
     \<lparr> config = cfg,
       cacheManager = new_CacheManager,
       defaultOptions = \<lparr> opt_failureThreshold = 5, opt_recoveryTimeout = 30000,
                          opt_monitoringPeriod = 60000 \<rparr>,
       breakers = Map.empty \<rparr>"

text \<open>\<open>getBreaker\<close>: the breaker of a backend, made on first use.\<close>

definition getBreaker :: "string \<Rightarrow> int \<Rightarrow> proxy_manager \<Rightarrow> circuit_breaker \<times> proxy_manager" where
  "getBreaker sid now pm =
     (case breakers pm sid of
        Some cb \<Rightarrow> (cb, pm)
      | None \<Rightarrow>
          (let cb = new_CircuitBreaker sid (defaultOptions pm) now
           in (cb, pm\<lparr> breakers := (breakers pm)(sid \<mapsto> cb) \<rparr>)))"

definition isValidMCPRequest :: "jsval \<Rightarrow> bool" where
  "isValidMCPRequest mcpRequest =
     (truthy mcpRequest \<and>
      prop_of mcpRequest ''jsonrpc'' = JStr ''2.0'' \<and>
      typeof_string (prop_of mcpRequest ''method'') \<and>
      prop_of mcpRequest ''id'' \<noteq> JUndefined)"

text \<open>
  The upstream as seen through \<open>axios.post\<close> (retries included): for a URL, a body and the
  world at the time of the call, the settled outcome (\<open>Inr\<close> the payload \<open>response.data\<close>
  of a reply, \<open>Inl\<close> the error the call rejects with) and the time it took.
\<close>

type_synonym upstream = "string \<Rightarrow> jsval \<Rightarrow> world \<Rightarrow> (js_error + jsval) \<times> int"

definition format_error :: js_error where
  "format_error = JsError ''Dify returned an invalid response format'' None None"

definition forwardRequest ::
  "upstream \<Rightarrow> proxy_config \<Rightarrow> string \<Rightarrow> jsval \<Rightarrow> world \<Rightarrow> (js_error + jsval) \<times> world" where
  "forwardRequest post cfg sid mcpRequest w =
     (let difyUrl = difyBaseUrl cfg @ ''/mcp/server/'' @ sid @ ''/mcp''
      in case post difyUrl mcpRequest w of
           (outcome, elapsed) \<Rightarrow>
             (let w1 = w\<lparr> clock := clock w + elapsed, netCalls := netCalls w + 1 \<rparr>
              in case outcome of
                   Inl e \<Rightarrow> (Inl e, w1)
                 | Inr payload \<Rightarrow>
                     if truthy payload \<and> typeof_object payload then (Inr payload, w1)
                     else (Inl format_error, w1)))"

text \<open>
  \<open>globalQueue.add\<close> for a request handled alone: the task starts at once (the priority
  option only orders tasks that wait, so it plays no part here) and \<open>add\<close> settles as the
  task does. The queue is constructed with \<open>timeout: 40000, throwOnTimeout: true\<close>, but
  \<open>new PQueue\<close> on the value of \<open>require('p-queue')\<close> only works with the releases of the
  queue library whose export is the constructor, and those have no timeout option; so no
  queue timeout takes part.
\<close>

definition globalQueue_add ::
  "(world \<Rightarrow> (js_error + 'a) \<times> 's \<times> world) \<Rightarrow> world \<Rightarrow> (js_error + 'a) \<times> 's \<times> world" where
  "globalQueue_add task w = task (w\<lparr> queueAdds := queueAdds w + 1 \<rparr>)"

text \<open>The \<open>try\<close> block of \<open>processRequest\<close>; \<open>Inl\<close> is an exception raised inside it.\<close>

definition try_block ::
  "upstream \<Rightarrow> string \<Rightarrow> jsval \<Rightarrow> proxy_manager \<Rightarrow> world
     \<Rightarrow> (js_error + jsval) \<times> proxy_manager \<times> world" where
  "try_block post sid mcpRequest pm w =
     (if \<not> isValidMCPRequest mcpRequest
      then (case getProp mcpRequest ''id'' of
              Inl e \<Rightarrow> (Inl e, pm, w)
            | Inr rid \<Rightarrow>
                (Inr (createErrorResponse INVALID_REQUEST ''invalid MCP request format'' JNull rid),
                 pm, w))
      else (case cache_get sid mcpRequest (clock w) (cacheManager pm) of
              Inl e \<Rightarrow> (Inl e, pm, w)
            | Inr (cached, cm1) \<Rightarrow>
                (let pm1 = pm\<lparr> cacheManager := cm1 \<rparr>
                 in if truthy cached then (Inr cached, pm1, w)
                    else (case getBreaker sid (clock w) pm1 of
                            (cb, pm2) \<Rightarrow>
                              (case globalQueue_add
                                      (\<lambda>w'. case execute (forwardRequest post (config pm2) sid mcpRequest) cb w' of
                                               (outcome, cb', w'') \<Rightarrow>
                                                 (outcome,
                                                  pm2\<lparr> breakers := (breakers pm2)(sid \<mapsto> cb') \<rparr>,
                                                  w'')) w of
                                 (Inl e, pm3, w3) \<Rightarrow> (Inl e, pm3, w3)
                               | (Inr result, pm3, w3) \<Rightarrow>
                                   (case cache_set sid mcpRequest result (clock w3) (cacheManager pm3) of
                                      Inl e \<Rightarrow> (Inl e, pm3, w3)
                                    | Inr cm4 \<Rightarrow> (Inr result, pm3\<lparr> cacheManager := cm4 \<rparr>, w3)))))))"

text \<open>
  The \<open>catch\<close> block. Its log line reads \<open>mcpRequest.method\<close> first; an exception raised
  here leaves \<open>processRequest\<close> (\<open>Inl\<close>).
\<close>

definition catch_block :: "string \<Rightarrow> jsval \<Rightarrow> js_error \<Rightarrow> js_error + jsval" where
  "catch_block sid mcpRequest error =
     (case getProp mcpRequest ''method'' of
        Inl e \<Rightarrow> Inl e
      | Inr method \<Rightarrow>
          if err_code error = Some ''CIRCUIT_BREAKER_OPEN''
          then (case getProp mcpRequest ''id'' of
                  Inl e \<Rightarrow> Inl e
                | Inr rid \<Rightarrow>
                    Inr (createErrorResponse CIRCUIT_BREAKER_OPEN (err_message error)
                           (JObj [(''server_id'', JStr sid)]) rid))
          else Inr (handleProxyError error sid))"

text \<open>
  \<open>processRequest\<close>: \<open>Inr\<close> is the response the promise resolves to, \<open>Inl\<close> the exception
  it rejects with.
\<close>

definition processRequest ::
  "upstream \<Rightarrow> string \<Rightarrow> jsval \<Rightarrow> proxy_manager \<Rightarrow> world
     \<Rightarrow> (js_error + jsval) \<times> proxy_manager \<times> world" where
  "processRequest post sid mcpRequest pm w =
     (case try_block post sid mcpRequest pm w of
        (Inr response, pm1, w1) \<Rightarrow> (Inr response, pm1, w1)
      | (Inl error, pm1, w1) \<Rightarrow> (catch_block sid mcpRequest error, pm1, w1))"

text \<open>\<open>n\<close> calls of \<open>execute\<close> on one breaker, one after the other.\<close>

fun execute_n ::
  "nat \<Rightarrow> (world \<Rightarrow> (js_error + 'a) \<times> world) \<Rightarrow> circuit_breaker \<Rightarrow> world
     \<Rightarrow> circuit_breaker \<times> world" where
  "execute_n 0 fn cb w = (cb, w)"
| "execute_n (Suc n) fn cb w =
     (case execute fn cb w of (outcome, cb1, w1) \<Rightarrow> execute_n n fn cb1 w1)"

text \<open>No stored response has a truthy \<open>error\<close> property.\<close>

definition cache_clean :: "cache_manager \<Rightarrow> bool" where
  "cache_clean cm = list_all (\<lambda>e. \<not> truthy (prop_of (fst (snd e)) ''error'')) (entries cm)"

section \<open>Example values\<close>

definition world0 :: world where
  "world0 = \<lparr> clock = 1000, netCalls = 0, queueAdds = 0 \<rparr>"



definition breaker_half_open :: circuit_breaker where
  "breaker_half_open =
     (new_CircuitBreaker ''X'' \<lparr> opt_failureThreshold = 5, opt_recoveryTimeout = 30000,
                                 opt_monitoringPeriod = 60000 \<rparr> 0)
       \<lparr> state := HALF_OPEN, failureCount := 5, successCount := 2 \<rparr>"

definition breaker_closed :: "int \<Rightarrow> circuit_breaker" where
  "breaker_closed n =
     (new_CircuitBreaker ''X'' \<lparr> opt_failureThreshold = 5, opt_recoveryTimeout = 30000,
                                 opt_monitoringPeriod = 60000 \<rparr> 0)
       \<lparr> failureCount := n \<rparr>"

definition pm0 :: proxy_manager where
  "pm0 = new_ProxyManager default_config"

definition req_call :: jsval where
  "req_call = JObj [(''jsonrpc'', JStr ''2.0''), (''method'', JStr ''tools/call''),
                    (''params'', JObj [(''name'', JStr ''search'')]), (''id'', JNum 7)]"

definition req_list :: jsval where
  "req_list = JObj [(''jsonrpc'', JStr ''2.0''), (''method'', JStr ''tools/list''),
                    (''id'', JNum 7)]"

definition req_empty_method :: jsval where
  "req_empty_method = JObj [(''jsonrpc'', JStr ''2.0''), (''method'', JStr []), (''id'', JNum 1)]"

definition req_bad_version :: jsval where
  "req_bad_version = JObj [(''jsonrpc'', JStr ''1.0''), (''method'', JStr ''tools/call''),
                           (''id'', JNum 7)]"

definition req_bad_version_null_id :: jsval where
  "req_bad_version_null_id =
     JObj [(''jsonrpc'', JStr ''1.0''), (''method'', JStr ''tools/call''), (''id'', JNull)]"

definition ok_payload :: jsval where
  "ok_payload = JObj [(''jsonrpc'', JStr ''2.0''), (''result'', JObj [(''tools'', JArr [])]),
                      (''id'', JNum 7)]"

definition rpc_error_payload :: jsval where
  "rpc_error_payload =
     JObj [(''jsonrpc'', JStr ''2.0''),
           (''error'', JObj [(''code'', JNum (- 32601)), (''message'', JStr ''Method not found'')]),
           (''id'', JNum 7)]"

definition refused_error :: js_error where
  "refused_error = JsError ''connect ECONNREFUSED'' (Some ''ECONNREFUSED'') None"

definition http_error :: "int \<Rightarrow> js_error" where
  "http_error status =
     JsError ''Request failed with a status code'' (Some ''ERR_BAD_RESPONSE'') (Some (status, JNull))"

definition post_ok :: upstream where
  "post_ok url body w = (Inr ok_payload, 10)"

definition post_html :: upstream where
  "post_html url body w = (Inr (JStr ''<html>''), 10)"

definition post_rpc_error :: upstream where
  "post_rpc_error url body w = (Inr rpc_error_payload, 10)"

definition post_refused :: upstream where
  "post_refused url body w = (Inl refused_error, 10)"

definition always_fails :: "world \<Rightarrow> (js_error + jsval) \<times> world" where
  "always_fails w = (Inl refused_error, w\<lparr> clock := clock w + 10 \<rparr>)"

definition no_response :: "js_error \<Rightarrow> bool" where
  "no_response e = (err_response e = None)"

definition breaker_open :: circuit_breaker where
  "breaker_open =
     (new_CircuitBreaker ''X'' \<lparr> opt_failureThreshold = 5, opt_recoveryTimeout = 30000,
                                 opt_monitoringPeriod = 60000 \<rparr> 0)
       \<lparr> state := OPEN, failureCount := 5, nextAttempt := 31000 \<rparr>"

text \<open>A list of requests to one backend, handled one after the other.\<close>

fun processRequests ::
  "upstream \<Rightarrow> string \<Rightarrow> jsval list \<Rightarrow> proxy_manager \<Rightarrow> world
     \<Rightarrow> (js_error + jsval) list \<times> proxy_manager \<times> world" where
  "processRequests post sid [] pm w = ([], pm, w)"
| "processRequests post sid (r # rs) pm w =
     (case processRequest post sid r pm w of
        (out, pm1, w1) \<Rightarrow>
          (case processRequests post sid rs pm1 w1 of
             (outs, pm2, w2) \<Rightarrow> (out # outs, pm2, w2)))"

text \<open>The state after five requests to backend \<open>Y\<close> that were all refused.\<close>

definition pm_tripped :: proxy_manager where
  "pm_tripped =
     fst (snd (processRequests post_refused ''Y''
                 [req_call, req_call, req_call, req_call, req_call] pm0 world0))"

definition world_tripped :: world where
  "world_tripped =
     snd (snd (processRequests post_refused ''Y''
                 [req_call, req_call, req_call, req_call, req_call] pm0 world0))"

section \<open>Auxiliary facts\<close>

lemma getProp_not_nullish: "\<not> nullish v \<Longrightarrow> getProp v k = Inr (prop_of v k)"
  by (simp add: getProp_def)

lemma isValid_not_nullish: "isValidMCPRequest r \<Longrightarrow> \<not> nullish r"
  by (cases r) (simp_all add: isValidMCPRequest_def)

lemma response_code_createErrorResponse:
  "response_code (createErrorResponse c m d i) = Some c"
  by (simp add: response_code_def createErrorResponse_def Let_def)

lemma id_of_createErrorResponse:
  "has_key (createErrorResponse c m d i) ''id'' = (\<not> nullish i)"
  "\<not> nullish i \<Longrightarrow> prop_of (createErrorResponse c m d i) ''id'' = i"
  by (cases i; simp add: has_key_def createErrorResponse_def Let_def)+

lemma handleProxyError_no_id: "\<not> has_key (handleProxyError e sid) ''id''"
  by (simp add: handleProxyError_def id_of_createErrorResponse split: option.splits)

lemma handleProxyError_plain:
  "err_code e = None \<Longrightarrow> err_response e = None \<Longrightarrow>
   response_code (handleProxyError e sid) = Some (- 32603)"
  by (simp add: handleProxyError_def response_code_createErrorResponse INTERNAL_ERROR_def)

lemma err_code_circuit_open: "err_code (circuit_open_error s) = Some ''CIRCUIT_BREAKER_OPEN''"
  by (simp add: circuit_open_error_def)

lemma execute_open_early:
  "state cb = OPEN \<Longrightarrow> clock w < nextAttempt cb \<Longrightarrow>
   execute fn cb w =
     (Inl (circuit_open_error (serverId cb)), cb\<lparr> totalRequests := totalRequests cb + 1 \<rparr>, w)"
  by (simp add: execute_def execute_enter_def)

lemma getBreaker_cache_irrelevant:
  "getBreaker sid now (pm\<lparr> cacheManager := cm \<rparr>) =
     (fst (getBreaker sid now pm), (snd (getBreaker sid now pm))\<lparr> cacheManager := cm \<rparr>)"
  by (simp add: getBreaker_def Let_def split: option.splits)

lemma getBreaker_fields:
  "config (snd (getBreaker sid now pm)) = config pm"
  "cacheManager (snd (getBreaker sid now pm)) = cacheManager pm"
  by (simp_all add: getBreaker_def Let_def split: option.splits)

text \<open>The path of a valid request that misses the cache and is let through by the breaker.\<close>

lemma try_block_forwarded:
  assumes valid: "isValidMCPRequest req"
    and miss: "cache_get sid req (clock w) (cacheManager pm) = Inr (JNull, cm1)"
    and adm: "execute_enter (clock w) (fst (getBreaker sid (clock w) pm)) = (Inr (), cb1)"
    and fwd: "forwardRequest post (config pm) sid req (w\<lparr> queueAdds := queueAdds w + 1 \<rparr>)
                = (outcome, w1)"
  shows "try_block post sid req pm w =
     (let pm3 = (snd (getBreaker sid (clock w) pm))
                  \<lparr> cacheManager := cm1,
                    breakers := (breakers (snd (getBreaker sid (clock w) pm)))
                                  (sid \<mapsto> execute_exit (clock w1) outcome cb1) \<rparr>
      in case outcome of
           Inl e \<Rightarrow> (Inl e, pm3, w1)
         | Inr result \<Rightarrow>
             (case cache_set sid req result (clock w1) cm1 of
                Inl e \<Rightarrow> (Inl e, pm3, w1)
              | Inr cm4 \<Rightarrow> (Inr result, pm3\<lparr> cacheManager := cm4 \<rparr>, w1)))"
  using valid miss adm fwd
  by (simp add: try_block_def getBreaker_cache_irrelevant getBreaker_fields globalQueue_add_def
      execute_def Let_def split: sum.splits)

lemma processRequest_via_try_block:
  "\<not> nullish req \<Longrightarrow>
   processRequest post sid req pm w =
     (case try_block post sid req pm w of
        (Inr response, pm1, w1) \<Rightarrow> (Inr response, pm1, w1)
      | (Inl error, pm1, w1) \<Rightarrow>
          (Inr (if err_code error = Some ''CIRCUIT_BREAKER_OPEN''
                then createErrorResponse CIRCUIT_BREAKER_OPEN (err_message error)
                       (JObj [(''server_id'', JStr sid)]) (prop_of req ''id'')
                else handleProxyError error sid), pm1, w1))"
  by (simp add: processRequest_def catch_block_def getProp_not_nullish split: prod.splits sum.splits)

lemma forwardRequest_netCalls:
  "netCalls (snd (forwardRequest post cfg sid req w)) = netCalls w + 1"
  by (simp add: forwardRequest_def Let_def split: prod.splits sum.splits)

lemma forwardRequest_bad_payload:
  "post (difyBaseUrl cfg @ ''/mcp/server/'' @ sid @ ''/mcp'') req w = (Inr payload, dt) \<Longrightarrow>
   \<not> (truthy payload \<and> typeof_object payload) \<Longrightarrow>
   forwardRequest post cfg sid req w =
     (Inl format_error, w\<lparr> clock := clock w + dt, netCalls := netCalls w + 1 \<rparr>)"
  by (auto simp add: forwardRequest_def Let_def)

lemma execute_closed_failure:
  "state cb = CLOSED \<Longrightarrow> fn w = (Inl e, w1) \<Longrightarrow>
   execute fn cb w =
     (Inl e, onFailure (clock w1) (cb\<lparr> totalRequests := totalRequests cb + 1 \<rparr>), w1)"
  by (simp add: execute_def execute_enter_def execute_exit_def)

lemma onFailure_closed_below:
  "state cb = CLOSED \<Longrightarrow> failureCount cb + 1 < failureThreshold cb \<Longrightarrow>
   state (onFailure now cb) = CLOSED \<and> failureCount (onFailure now cb) = failureCount cb + 1
   \<and> failureThreshold (onFailure now cb) = failureThreshold cb
   \<and> recoveryTimeout (onFailure now cb) = recoveryTimeout cb"
  by (simp add: onFailure_def)

lemma onFailure_closed_reaches:
  "state cb = CLOSED \<Longrightarrow> failureCount cb + 1 = failureThreshold cb \<Longrightarrow>
   state (onFailure now cb) = OPEN \<and> nextAttempt (onFailure now cb) = now + recoveryTimeout cb"
  by (simp add: onFailure_def trip_def)

lemma failures_trip:
  assumes "\<forall>w. isl (fst (fn w))"
  shows "state cb = CLOSED \<Longrightarrow> failureCount cb + int n = failureThreshold cb \<Longrightarrow> 0 < n \<Longrightarrow>
     state (fst (execute_n n fn cb w)) = OPEN \<and>
     nextAttempt (fst (execute_n n fn cb w)) = clock (snd (execute_n n fn cb w)) + recoveryTimeout cb"
proof (induction n arbitrary: cb w)
  case 0
  then show ?case by simp
next
  case (Suc n)
  obtain e w1 where fw: "fn w = (Inl e, w1)"
    using assms by (metis isl_def prod.collapse)
  let ?cb0 = "cb\<lparr> totalRequests := totalRequests cb + 1 \<rparr>"
  let ?cb1 = "onFailure (clock w1) ?cb0"
  have ex: "execute fn cb w = (Inl e, ?cb1, w1)"
    using Suc.prems(1) fw by (rule execute_closed_failure)
  have st0: "state ?cb0 = CLOSED" using Suc.prems(1) by simp
  show ?case
  proof (cases "n = 0")
    case True
    then have "failureCount ?cb0 + 1 = failureThreshold ?cb0"
      using Suc.prems(2) by simp
    from onFailure_closed_reaches[OF st0 this, of "clock w1"] True ex
    show ?thesis by simp
  next
    case False
    then have lt: "failureCount ?cb0 + 1 < failureThreshold ?cb0"
      using Suc.prems(2) by simp
    note step = onFailure_closed_below[OF st0 lt, of "clock w1"]
    have "failureCount ?cb1 + int n = failureThreshold ?cb1"
      using step Suc.prems(2) by simp
    from Suc.IH[OF _ this, of w1] step False ex
    show ?thesis by simp
  qed
qed

lemma axios_retry_bounded:
  "case axios_retry r k cond delay attempt of
     (res, ds) \<Rightarrow>
       length ds \<le> r \<and>
       (\<forall>i<length ds. ds ! i = delay (Suc (k + i)) \<and> (\<exists>e. attempt (k + i) = Inl e \<and> cond e))"
proof (induction r arbitrary: k)
  case 0
  then show ?case by simp
next
  case (Suc r)
  show ?case
  proof (cases "attempt k")
    case (Inr x)
    then show ?thesis by simp
  next
    case (Inl e)
    show ?thesis
    proof (cases "cond e")
      case False
      with Inl show ?thesis by simp
    next
      case True
      obtain res ds where rec: "axios_retry r (Suc k) cond delay attempt = (res, ds)"
        by (cases "axios_retry r (Suc k) cond delay attempt")
      from Suc.IH[of "Suc k"] rec
      have ih: "length ds \<le> r"
        "\<forall>i<length ds. ds ! i = delay (Suc (Suc k + i)) \<and> (\<exists>e. attempt (Suc k + i) = Inl e \<and> cond e)"
        by simp_all
      have "\<forall>i<length (delay (Suc k) # ds).
              (delay (Suc k) # ds) ! i = delay (Suc (k + i)) \<and> (\<exists>e. attempt (k + i) = Inl e \<and> cond e)"
      proof (intro allI impI)
        fix i assume "i < length (delay (Suc k) # ds)"
        then show "(delay (Suc k) # ds) ! i = delay (Suc (k + i)) \<and> (\<exists>e. attempt (k + i) = Inl e \<and> cond e)"
          using ih(2) Inl True by (cases i) auto
      qed
      then show ?thesis
        using Inl True rec ih(1) by simp
    qed
  qed
qed

lemma axios_retry_exact:
  assumes "m \<le> r"
    and "\<forall>i<m. \<exists>e. attempt (k + i) = Inl e \<and> cond e"
    and "m = r \<or> (\<exists>x. attempt (k + m) = Inr x) \<or> (\<exists>e. attempt (k + m) = Inl e \<and> \<not> cond e)"
  shows "axios_retry r k cond delay attempt
           = (attempt (k + m), map delay [Suc k..<Suc (k + m)])"
  using assms
proof (induction r arbitrary: k m)
  case 0
  then show ?case by simp
next
  case (Suc r)
  show ?case
  proof (cases m)
    case 0
    with Suc.prems(3) show ?thesis by auto
  next
    case (Suc m')
    from Suc.prems(2) Suc obtain e where e: "attempt k = Inl e" "cond e"
      by fastforce
    have le: "m' \<le> r" using Suc.prems(1) Suc by simp
    have all: "\<forall>i<m'. \<exists>e. attempt (Suc k + i) = Inl e \<and> cond e"
    proof (intro allI impI)
      fix i assume "i < m'"
      then have "Suc i < m" using Suc by simp
      with Suc.prems(2) have "\<exists>e. attempt (k + Suc i) = Inl e \<and> cond e" by blast
      then show "\<exists>e. attempt (Suc k + i) = Inl e \<and> cond e" by simp
    qed
    have stop: "m' = r \<or> (\<exists>x. attempt (Suc k + m') = Inr x)
                \<or> (\<exists>e. attempt (Suc k + m') = Inl e \<and> \<not> cond e)"
      using Suc.prems(3) Suc by simp
    from Suc.IH[OF le all stop]
    have "axios_retry r (Suc k) cond delay attempt
            = (attempt (Suc k + m'), map delay [Suc (Suc k)..<Suc (Suc k + m')])" .
    moreover have "[Suc k..<Suc (k + m)] = Suc k # [Suc (Suc k)..<Suc (Suc k + m')]"
      using Suc by (simp add: upt_conv_Cons del: upt_Suc)
    ultimately show ?thesis using e Suc by (simp del: upt_Suc)
  qed
qed

lemma map_of_filter_key: "map_of (filter (\<lambda>e. fst e \<noteq> k) es) k = None"
  by (induction es) auto

lemma nc_get_miss_persists:
  assumes "nc_get t k es = (c, es')" and "\<not> truthy c"
  shows "\<not> truthy (fst (nc_get t' k es'))"
proof (cases "map_of es k")
  case None
  with assms show ?thesis by (auto simp: nc_get_def)
next
  case (Some vt)
  obtain v te where vt: "vt = (v, te)" by (cases vt)
  show ?thesis
  proof (cases "te \<noteq> 0 \<and> te < t")
    case True
    with assms Some vt have "es' = filter (\<lambda>e. fst e \<noteq> k) es"
      by (auto simp: nc_get_def)
    then show ?thesis by (simp add: nc_get_def map_of_filter_key)
  next
    case False
    with assms Some vt have "es' = es" "c = v" by (auto simp: nc_get_def)
    with assms(2) Some vt show ?thesis by (auto simp: nc_get_def)
  qed
qed

lemma cache_miss_persists:
  assumes "cache_get sid req t cm = Inr (JNull, cm1)"
  shows "\<exists>cm2. cache_get sid req t' cm1 = Inr (JNull, cm2)"
proof (cases "nullish req")
  case True
  with assms show ?thesis by (simp add: cache_get_def getProp_def)
next
  case nn: False
  show ?thesis
  proof (cases "shouldCache (prop_of req ''method'')")
    case False
    with nn assms show ?thesis by (simp add: cache_get_def getProp_def)
  next
    case sc: True
    from assms nn sc obtain key where key: "generateCacheKey sid req = Inr key"
      by (cases "generateCacheKey sid req") (simp_all add: cache_get_def getProp_def)
    obtain c es' where g: "nc_get t key (entries cm) = (c, es')"
      by (cases "nc_get t key (entries cm)")
    from assms nn sc key g have c: "\<not> truthy c" and cm1: "entries cm1 = es'"
      by (auto simp: cache_get_def getProp_def split: if_splits)
    obtain c2 es2 where g2: "nc_get t' key (entries cm1) = (c2, es2)"
      by (cases "nc_get t' key (entries cm1)")
    from nc_get_miss_persists[OF g c, of t'] cm1 g2
    have "\<not> truthy c2" by simp
    with nn sc key g2 show ?thesis
      by (simp add: cache_get_def getProp_def)
  qed
qed

lemma cache_set_error_noop:
  "truthy (prop_of response ''error'') \<Longrightarrow>
   cache_set sid req response now cm = (if nullish req then Inl type_error else Inr cm)"
  by (cases "nullish response")
     (auto simp: cache_set_def getProp_def elim: nullish.elims)

lemma nc_get_clean:
  assumes "list_all (\<lambda>e. \<not> truthy (prop_of (fst (snd e)) ''error'')) es"
    and "nc_get now k es = (c, es')"
  shows "\<not> truthy (prop_of c ''error'') \<and>
         list_all (\<lambda>e. \<not> truthy (prop_of (fst (snd e)) ''error'')) es'"
proof (cases "map_of es k")
  case None
  with assms show ?thesis by (auto simp: nc_get_def)
next
  case (Some vt)
  obtain v te where vt: "vt = (v, te)" by (cases vt)
  from Some vt have "(k, v, te) \<in> set es" by (simp add: map_of_SomeD)
  with assms(1) have v: "\<not> truthy (prop_of v ''error'')"
    by (auto simp: list_all_iff)
  from assms Some vt v show ?thesis
    by (auto simp: nc_get_def list_all_iff split: if_splits)
qed

lemma cache_get_clean:
  assumes "cache_clean cm" and "cache_get sid req now cm = Inr (c, cm')"
  shows "\<not> truthy (prop_of c ''error'') \<and> cache_clean cm'"
proof -
  have "\<not> truthy (prop_of c ''error'') \<and> cache_clean cm'"
    if g: "nc_get now key (entries cm) = (c0, es')"
      and r: "(if truthy c0 then Inr (c0, cm\<lparr> entries := es', hits := hits cm + 1 \<rparr>)
              else Inr (JNull, cm\<lparr> entries := es', misses := misses cm + 1 \<rparr>))
              = (Inr (c, cm') :: js_error + (jsval \<times> cache_manager))"
    for key c0 es'
  proof -
    from nc_get_clean[OF _ g] assms(1)
    have "\<not> truthy (prop_of c0 ''error'')"
      "list_all (\<lambda>e. \<not> truthy (prop_of (fst (snd e)) ''error'')) es'"
      by (simp_all add: cache_clean_def)
    with r show ?thesis by (auto simp: cache_clean_def split: if_splits)
  qed
  with assms show ?thesis
    by (auto simp: cache_get_def split: sum.splits if_splits prod.splits)
qed

lemma cache_set_clean:
  assumes "cache_clean cm" and "cache_set sid req response now cm = Inr cm'"
  shows "cache_clean cm'"
  using assms
  by (auto simp: cache_set_def cache_clean_def nc_set_def list_all_iff getProp_def
      split: sum.splits if_splits)

lemma try_block_clean:
  assumes "cache_clean (cacheManager pm)"
  shows "cache_clean (cacheManager (fst (snd (try_block post sid req pm w))))"
proof (cases "isValidMCPRequest req")
  case False
  then show ?thesis using assms by (simp add: try_block_def split: sum.splits)
next
  case valid: True
  show ?thesis
  proof (cases "cache_get sid req (clock w) (cacheManager pm)")
    case (Inl e)
    with valid assms show ?thesis by (simp add: try_block_def)
  next
    case (Inr hit)
    obtain c cm1 where hit: "hit = (c, cm1)" by (cases hit)
    from cache_get_clean[OF assms] Inr hit have cm1: "cache_clean cm1" by simp
    show ?thesis
      using valid Inr hit cm1
      by (auto simp: try_block_def Let_def getBreaker_cache_irrelevant getBreaker_fields
          globalQueue_add_def execute_def
          split: prod.splits sum.splits if_splits dest: cache_set_clean)
  qed
qed

lemma processRequest_state:
  "snd (processRequest post sid req pm w) = snd (try_block post sid req pm w)"
  by (simp add: processRequest_def split: prod.splits sum.splits)

lemma execute_enter_admitted_state:
  "execute_enter now cb = (Inr (), cb1) \<Longrightarrow> state cb1 = CLOSED \<or> state cb1 = HALF_OPEN"
  by (cases "state cb") (auto simp: execute_enter_def Let_def split: if_splits)

lemma onSuccess_from_admitted:
  "state cb1 = CLOSED \<or> state cb1 = HALF_OPEN \<Longrightarrow> state (onSuccess now cb1) = CLOSED"
  by (auto simp: onSuccess_def reset_def)

lemma execute_enter_closed:
  "state cb = CLOSED \<Longrightarrow> execute_enter now cb = (Inr (), cb\<lparr> totalRequests := totalRequests cb + 1 \<rparr>)"
  by (simp add: execute_enter_def)

lemma forwarded_netCalls:
  assumes "isValidMCPRequest req"
    and "cache_get sid req (clock w) (cacheManager pm) = Inr (JNull, cm1)"
    and "fst (execute_enter (clock w) (fst (getBreaker sid (clock w) pm))) = Inr ()"
  shows "netCalls (snd (snd (processRequest post sid req pm w))) = netCalls w + 1"
proof -
  let ?wq = "w\<lparr> queueAdds := queueAdds w + 1 \<rparr>"
  obtain cb1 where adm: "execute_enter (clock w) (fst (getBreaker sid (clock w) pm)) = (Inr (), cb1)"
    using assms(3) by (metis prod.collapse)
  obtain outcome w1 where fwd: "forwardRequest post (config pm) sid req ?wq = (outcome, w1)"
    by (cases "forwardRequest post (config pm) sid req ?wq")
  from forwardRequest_netCalls[of post "config pm" sid req ?wq] fwd
  have n: "netCalls w1 = netCalls w + 1" by simp
  show ?thesis
    using n
    by (simp add: processRequest_state try_block_forwarded[OF assms(1,2) adm fwd] Let_def
        split: sum.splits)
qed


lemma forwardRequest_good_payload:
  "post (difyBaseUrl cfg @ ''/mcp/server/'' @ sid @ ''/mcp'') req w = (Inr payload, dt) \<Longrightarrow>
   truthy payload \<Longrightarrow> typeof_object payload \<Longrightarrow>
   forwardRequest post cfg sid req w =
     (Inr payload, w\<lparr> clock := clock w + dt, netCalls := netCalls w + 1 \<rparr>)"
  by (auto simp add: forwardRequest_def Let_def)

lemma error_payload_not_cached:
  assumes valid: "isValidMCPRequest req"
    and miss: "cache_get sid req (clock w) (cacheManager pm) = Inr (JNull, cm1)"
    and adm: "fst (execute_enter (clock w) (fst (getBreaker sid (clock w) pm))) = Inr ()"
    and up: "\<forall>url body v. fst (post url body v) = Inr payload"
    and obj: "truthy payload" "typeof_object payload"
    and err: "truthy (prop_of payload ''error'')"
  shows "\<exists>cbS dt. snd (processRequest post sid req pm w) =
           ((snd (getBreaker sid (clock w) pm))
              \<lparr> cacheManager := cm1,
                breakers := (breakers (snd (getBreaker sid (clock w) pm)))(sid \<mapsto> cbS) \<rparr>,
            w\<lparr> queueAdds := queueAdds w + 1, clock := clock w + dt, netCalls := netCalls w + 1 \<rparr>)
           \<and> state cbS = CLOSED
           \<and> fst (processRequest post sid req pm w) = Inr payload"
proof -
  let ?wq = "w\<lparr> queueAdds := queueAdds w + 1 \<rparr>"
  let ?url = "difyBaseUrl (config pm) @ ''/mcp/server/'' @ sid @ ''/mcp''"
  have nn: "\<not> nullish req" using valid by (rule isValid_not_nullish)
  obtain cb1 where en: "execute_enter (clock w) (fst (getBreaker sid (clock w) pm)) = (Inr (), cb1)"
    using adm by (metis prod.collapse)
  obtain dt where p: "post ?url req ?wq = (Inr payload, dt)"
    using up by (metis prod.collapse)
  let ?w1 = "?wq\<lparr> clock := clock ?wq + dt, netCalls := netCalls ?wq + 1 \<rparr>"
  have fwd: "forwardRequest post (config pm) sid req ?wq = (Inr payload, ?w1)"
    by (rule forwardRequest_good_payload[where post = post and cfg = "config pm" and sid = sid
          and req = req and payload = payload and dt = dt, OF p obj])
  have noop: "cache_set sid req payload t cm1 = Inr cm1" for t
    using cache_set_error_noop[OF err, of sid req t cm1] nn by simp
  have closed: "state (onSuccess t cb1) = CLOSED" for t
    using execute_enter_admitted_state[OF en] by (rule onSuccess_from_admitted)
  show ?thesis
    apply (rule exI[of _ "onSuccess (clock ?w1) cb1"])
    apply (rule exI[of _ dt])
    using closed
    apply (simp add: processRequest_via_try_block[OF nn] try_block_forwarded[OF valid miss en fwd]
        Let_def noop execute_exit_def)
    done
qed

text \<open>Unfolding sets for evaluating the model on the example values.\<close>

lemmas request_defs = isValidMCPRequest_def getProp_def cache_get_def cache_set_def shouldCache_def
  cacheTTL_def getCacheTTL_def
lemmas proxy_defs = processRequest_def try_block_def catch_block_def getBreaker_def
  globalQueue_add_def execute_def execute_enter_def execute_exit_def onSuccess_def onFailure_def
  trip_def reset_def forwardRequest_def new_CircuitBreaker_def or_default_def Let_def
lemmas start_defs = pm0_def new_ProxyManager_def new_CacheManager_def default_config_def world0_def

text \<open>Five refused calls trip the breaker of backend \<open>Y\<close>.\<close>

lemma tripped_state:
  "processRequests post_refused ''Y'' [req_call, req_call, req_call, req_call, req_call] pm0 world0
   = (replicate 5 (Inr (handleProxyError refused_error ''Y'')),
      pm0\<lparr> breakers := (breakers pm0)(''Y'' \<mapsto>
            (new_CircuitBreaker ''Y'' (defaultOptions pm0) 1000)
              \<lparr> state := OPEN, failureCount := 5, nextAttempt := 31050,
                lastFailureTime := Some 1050, totalRequests := 5, totalFailures := 5,
                circuitBreakerTrips := 1 \<rparr>) \<rparr>,
      \<lparr> clock = 1050, netCalls = 5, queueAdds = 5 \<rparr>)"
  by (simp add: request_defs proxy_defs start_defs req_call_def post_refused_def
      refused_error_def numeral_eq_Suc)

section \<open>The claims\<close>

text \<open>
  C1. \<open>processRequest\<close> is meant never to throw: every failure should end in an error
  response. On the request \<open>null\<close> (and \<open>undefined\<close>) it rejects with a TypeError instead:
  validation fails, the invalid-request branch reads \<open>mcpRequest.id\<close> and throws, and the
  \<open>catch\<close> block throws again when its log line reads \<open>mcpRequest.method\<close>.
\<close>

theorem processRequest_rejects_on_null_request:
  "processRequest post sid JNull pm w = (Inl type_error, pm, w)
   \<and> processRequest post sid JUndefined pm w = (Inl type_error, pm, w)"
  by (simp add: processRequest_def try_block_def catch_block_def isValidMCPRequest_def getProp_def)

text \<open>On every other request value \<open>processRequest\<close> does resolve to a response.\<close>

lemma processRequest_resolves_on_other_requests:
  "\<not> nullish req \<Longrightarrow> \<exists>resp. fst (processRequest post sid req pm w) = Inr resp"
  by (simp add: processRequest_via_try_block split: prod.splits sum.splits)

text \<open>
  C2 (as amended). For every request other than \<open>null\<close> and \<open>undefined\<close> whose version tag is
  not \<open>"2.0"\<close>, whose method is not a string, or whose \<open>id\<close> is absent (reads as
  \<open>undefined\<close>), \<open>processRequest\<close> returns an error response with code -32600 and leaves
  the cache, the breakers, the queue and the network untouched.
\<close>

theorem malformed_envelope_short_circuits:
  assumes "\<not> nullish req"
    and "prop_of req ''jsonrpc'' \<noteq> JStr ''2.0'' \<or> \<not> typeof_string (prop_of req ''method'')
         \<or> prop_of req ''id'' = JUndefined"
  shows "\<exists>resp. processRequest post sid req pm w = (Inr resp, pm, w)
           \<and> response_code resp = Some (- 32600)"
proof -
  from assms(2) have inv: "\<not> isValidMCPRequest req"
    by (auto simp: isValidMCPRequest_def)
  have "processRequest post sid req pm w =
      (Inr (createErrorResponse INVALID_REQUEST ''invalid MCP request format'' JNull
              (prop_of req ''id'')), pm, w)"
    using inv assms(1) by (simp add: processRequest_def try_block_def getProp_not_nullish)
  moreover have "response_code (createErrorResponse INVALID_REQUEST ''invalid MCP request format''
      JNull (prop_of req ''id'')) = Some (- 32600)"
    by (simp add: response_code_createErrorResponse INVALID_REQUEST_def)
  ultimately show ?thesis by blast
qed

theorem malformed_envelope_short_circuits_witness:
  "\<exists>resp. processRequest post_ok ''X'' req_bad_version pm0 world0 = (Inr resp, pm0, world0)
           \<and> response_code resp = Some (- 32600)"
proof -
  have a: "\<not> nullish req_bad_version" by (simp add: req_bad_version_def)
  have b: "prop_of req_bad_version ''jsonrpc'' \<noteq> JStr ''2.0''
           \<or> \<not> typeof_string (prop_of req_bad_version ''method'')
           \<or> prop_of req_bad_version ''id'' = JUndefined"
    by (simp add: req_bad_version_def)
  from malformed_envelope_short_circuits[OF a b] show ?thesis .
qed

text \<open>
  Counterexample to C2 as stated: a request whose method is the empty string passes
  validation and is forwarded to the upstream.
\<close>

theorem empty_method_is_forwarded:
  "(case processRequest post_ok ''X'' req_empty_method pm0 world0 of
      (r, pm, w) \<Rightarrow> r = Inr ok_payload \<and> netCalls w = 1 \<and> queueAdds w = 1)"
  by (simp add: request_defs proxy_defs start_defs req_empty_method_def post_ok_def ok_payload_def)



text \<open>
  The truthiness is needed beside the serialization: \<open>Infinity\<close> (which a request
  carries as \<open>1e999\<close>) is truthy and is written \<open>null\<close>, as \<open>null\<close> itself is.
\<close>

lemma same_serialization_other_truthiness:
  "JSON_ser JInfinity = JSON_ser JNull \<and> truthy JInfinity \<and> \<not> truthy JNull"
  by simp


text \<open>
  C4. While a breaker is OPEN and the clock is before \<open>nextAttempt\<close>, \<open>execute\<close> fails with
  the circuit-open error and leaves the world as it was (the protected call is not
  started); \<open>processRequest\<close> turns this into an error response with code -32003 and the
  count of upstream calls is unchanged. After \<open>failureThreshold\<close> failures in a row from
  a CLOSED breaker with no recorded failures the breaker is OPEN with \<open>nextAttempt\<close> one
  \<open>recoveryTimeout\<close> after the last failure, so every call before that time is rejected
  in this way.
\<close>

theorem open_breaker_rejects_without_calling_backend:
  "(state cb = OPEN \<and> clock w < nextAttempt cb \<longrightarrow>
      execute fn cb w =
        (Inl (circuit_open_error (serverId cb)), cb\<lparr> totalRequests := totalRequests cb + 1 \<rparr>, w))
   \<and> (isValidMCPRequest req \<and> cache_get sid req (clock w) (cacheManager pm) = Inr (JNull, cm1)
       \<and> breakers pm sid = Some cb \<and> state cb = OPEN \<and> clock w < nextAttempt cb \<longrightarrow>
      (\<exists>resp pm' w'. processRequest post sid req pm w = (Inr resp, pm', w')
         \<and> response_code resp = Some (- 32003) \<and> netCalls w' = netCalls w))
   \<and> (state cb = CLOSED \<and> failureCount cb = 0 \<and> failureThreshold cb = int n \<and> 0 < n
       \<and> (\<forall>v. isl (fst (failing v))) \<longrightarrow>
      (case execute_n n failing cb w of
         (cb', w') \<Rightarrow>
           state cb' = OPEN \<and> nextAttempt cb' = clock w' + recoveryTimeout cb
           \<and> (\<forall>w2. clock w2 < clock w' + recoveryTimeout cb \<longrightarrow>
                 execute fn cb' w2 =
                   (Inl (circuit_open_error (serverId cb')),
                    cb'\<lparr> totalRequests := totalRequests cb' + 1 \<rparr>, w2))))"
proof (intro conjI impI)
  assume "state cb = OPEN \<and> clock w < nextAttempt cb"
  then show "execute fn cb w =
        (Inl (circuit_open_error (serverId cb)), cb\<lparr> totalRequests := totalRequests cb + 1 \<rparr>, w)"
    by (simp add: execute_open_early)
next
  assume a: "isValidMCPRequest req \<and> cache_get sid req (clock w) (cacheManager pm) = Inr (JNull, cm1)
       \<and> breakers pm sid = Some cb \<and> state cb = OPEN \<and> clock w < nextAttempt cb"
  then have nn: "\<not> nullish req" by (simp add: isValid_not_nullish)
  have "processRequest post sid req pm w =
     (Inr (createErrorResponse CIRCUIT_BREAKER_OPEN
             (err_message (circuit_open_error (serverId cb)))
             (JObj [(''server_id'', JStr sid)]) (prop_of req ''id'')),
      pm\<lparr> cacheManager := cm1,
          breakers := (breakers pm)(sid \<mapsto> cb\<lparr> totalRequests := totalRequests cb + 1 \<rparr>) \<rparr>,
      w\<lparr> queueAdds := queueAdds w + 1 \<rparr>)"
    using a nn
    by (simp add: processRequest_def try_block_def getBreaker_def globalQueue_add_def
        execute_open_early catch_block_def getProp_not_nullish err_code_circuit_open)
  then show "\<exists>resp pm' w'. processRequest post sid req pm w = (Inr resp, pm', w')
         \<and> response_code resp = Some (- 32003) \<and> netCalls w' = netCalls w"
    by (simp add: response_code_createErrorResponse CIRCUIT_BREAKER_OPEN_def)
next
  assume a: "state cb = CLOSED \<and> failureCount cb = 0 \<and> failureThreshold cb = int n \<and> 0 < n
       \<and> (\<forall>v. isl (fst (failing v)))"
  then have "state (fst (execute_n n failing cb w)) = OPEN \<and>
     nextAttempt (fst (execute_n n failing cb w))
       = clock (snd (execute_n n failing cb w)) + recoveryTimeout cb"
    by (intro failures_trip) simp_all
  then show "case execute_n n failing cb w of
         (cb', w') \<Rightarrow>
           state cb' = OPEN \<and> nextAttempt cb' = clock w' + recoveryTimeout cb
           \<and> (\<forall>w2. clock w2 < clock w' + recoveryTimeout cb \<longrightarrow>
                 execute fn cb' w2 =
                   (Inl (circuit_open_error (serverId cb')),
                    cb'\<lparr> totalRequests := totalRequests cb' + 1 \<rparr>, w2))"
    by (auto simp: execute_open_early split: prod.splits)
qed

text \<open>
  The scenario of the specification: five refused calls to backend \<open>Y\<close>, then a sixth
  within the recovery timeout.
\<close>

theorem open_breaker_rejects_without_calling_backend_witness:
  "(\<exists>resp pm' w'. processRequest post_refused ''Y'' req_call pm_tripped world_tripped
                     = (Inr resp, pm', w')
       \<and> response_code resp = Some (- 32003) \<and> netCalls w' = 5)
   \<and> state (fst (execute_n 5 always_fails (breaker_closed 0) world0)) = OPEN
   \<and> nextAttempt (fst (execute_n 5 always_fails (breaker_closed 0) world0)) = 31050
   \<and> fst (execute (\<lambda>w. (Inr JNull, w)) breaker_open world0)
       = Inl (circuit_open_error ''X'')"
proof -
  let ?cb = "(new_CircuitBreaker ''Y'' (defaultOptions pm0) 1000)
              \<lparr> state := OPEN, failureCount := 5, nextAttempt := 31050,
                lastFailureTime := Some 1050, totalRequests := 5, totalFailures := 5,
                circuitBreakerTrips := 1 \<rparr>"
  have pm: "pm_tripped = pm0\<lparr> breakers := (breakers pm0)(''Y'' \<mapsto> ?cb) \<rparr>"
    and w: "world_tripped = \<lparr> clock = 1050, netCalls = 5, queueAdds = 5 \<rparr>"
    unfolding pm_tripped_def world_tripped_def tripped_state by simp_all
  have valid: "isValidMCPRequest req_call"
    by (simp add: isValidMCPRequest_def req_call_def)
  have miss: "cache_get ''Y'' req_call (clock world_tripped) (cacheManager pm_tripped)
              = Inr (JNull, cacheManager pm_tripped)"
    by (simp add: request_defs req_call_def)
  have brk: "breakers pm_tripped ''Y'' = Some ?cb" by (simp add: pm)
  have st: "state ?cb = OPEN" by simp
  have early: "clock world_tripped < nextAttempt ?cb" by (simp add: w)
  note inst1 = open_breaker_rejects_without_calling_backend
    [where cb = ?cb and w = world_tripped and req = req_call and sid = "''Y''"
       and pm = pm_tripped and ?cm1.0 = "cacheManager pm_tripped" and post = post_refused
       and fn = "\<lambda>w. (Inr JNull, w)" and n = 5 and failing = always_fails]
  note inst2 = open_breaker_rejects_without_calling_backend
    [where cb = breaker_open and w = world0 and fn = "\<lambda>w. (Inr JNull, w)" and n = 5
       and failing = always_fails and req = req_call and sid = "''Y''" and pm = pm_tripped
       and ?cm1.0 = "cacheManager pm_tripped" and post = post_refused]
  note inst3 = open_breaker_rejects_without_calling_backend
    [where cb = "breaker_closed 0" and w = world0 and n = 5 and failing = always_fails
       and fn = "\<lambda>w. (Inr JNull, w)" and req = req_call and sid = "''Y''" and pm = pm_tripped
       and ?cm1.0 = "cacheManager pm_tripped" and post = post_refused]
  have six: "\<exists>resp pm' w'. processRequest post_refused ''Y'' req_call pm_tripped world_tripped
                     = (Inr resp, pm', w')
       \<and> response_code resp = Some (- 32003) \<and> netCalls w' = 5"
    using inst1 valid miss brk st early by (simp add: w)
  have c0: "state (breaker_closed 0) = CLOSED \<and> failureCount (breaker_closed 0) = 0
            \<and> failureThreshold (breaker_closed 0) = int 5 \<and> (0::nat) < 5
            \<and> (\<forall>v. isl (fst (always_fails v)))"
    by (simp add: breaker_closed_def new_CircuitBreaker_def or_default_def always_fails_def)
  have w5: "clock (snd (execute_n 5 always_fails (breaker_closed 0) world0)) = 1050"
    by (simp add: numeral_eq_Suc always_fails_def proxy_defs breaker_closed_def world0_def)
  have rt: "recoveryTimeout (breaker_closed 0) = 30000"
    by (simp add: breaker_closed_def new_CircuitBreaker_def or_default_def)
  have five: "state (fst (execute_n 5 always_fails (breaker_closed 0) world0)) = OPEN
      \<and> nextAttempt (fst (execute_n 5 always_fails (breaker_closed 0) world0)) = 31050"
    using inst3 c0 w5 rt by (auto split: prod.splits)
  have "state breaker_open = OPEN \<and> clock world0 < nextAttempt breaker_open"
    by (simp add: breaker_open_def world0_def)
  with inst2 have "fst (execute (\<lambda>w. (Inr JNull, w)) breaker_open world0)
       = Inl (circuit_open_error ''X'')"
    by (simp add: breaker_open_def new_CircuitBreaker_def)
  with six five show ?thesis by simp
qed

text \<open>
  C5 (as amended). Once \<open>nextAttempt\<close> has been reached, a call that finds the breaker OPEN
  is let through and moves it to HALF_OPEN; a call that finds it HALF_OPEN is let through
  as well. A failure that is recorded while the breaker is HALF_OPEN trips it to OPEN at
  once, whatever the threshold, with \<open>nextAttempt = now + recoveryTimeout\<close>.
\<close>

theorem half_open_admits_and_failure_reopens:
  "(state cb = OPEN \<and> nextAttempt cb \<le> now \<longrightarrow>
      fst (execute_enter now cb) = Inr () \<and> state (snd (execute_enter now cb)) = HALF_OPEN)
   \<and> (state cb = HALF_OPEN \<longrightarrow>
      fst (execute_enter now cb) = Inr () \<and> state (snd (execute_enter now cb)) = HALF_OPEN)
   \<and> (state cb = HALF_OPEN \<longrightarrow>
      state (execute_exit now (Inl e :: js_error + jsval) cb) = OPEN \<and>
      nextAttempt (execute_exit now (Inl e :: js_error + jsval) cb) = now + recoveryTimeout cb)
   \<and> (state cb = OPEN \<and> nextAttempt cb \<le> clock w \<and> fn w = (Inl e, w1) \<longrightarrow>
      (case execute fn cb w of
         (outcome, cb', w') \<Rightarrow>
           outcome = (Inl e :: js_error + jsval) \<and> w' = w1 \<and> state cb' = OPEN \<and>
           nextAttempt cb' = clock w1 + recoveryTimeout cb))"
  by (simp add: execute_def execute_enter_def execute_exit_def onFailure_def trip_def)

theorem half_open_admits_and_failure_reopens_witness:
  "fst (execute_enter 31000 breaker_open) = Inr ()
   \<and> state (snd (execute_enter 31000 breaker_open)) = HALF_OPEN
   \<and> fst (execute_enter 40000 breaker_half_open) = Inr ()
   \<and> state (execute_exit 40000 (Inl refused_error :: js_error + jsval) breaker_half_open) = OPEN
   \<and> nextAttempt (execute_exit 40000 (Inl refused_error :: js_error + jsval) breaker_half_open)
       = 70000
   \<and> nextAttempt (fst (snd (execute always_fails breaker_open
                               \<lparr> clock = 31000, netCalls = 0, queueAdds = 0 \<rparr>))) = 61010"
proof -
  have o: "state breaker_open = OPEN \<and> nextAttempt breaker_open \<le> 31000"
    by (simp add: breaker_open_def)
  have h: "state breaker_half_open = HALF_OPEN" by (simp add: breaker_half_open_def)
  have rt: "recoveryTimeout breaker_half_open = 30000" "recoveryTimeout breaker_open = 30000"
    by (simp_all add: breaker_half_open_def breaker_open_def new_CircuitBreaker_def or_default_def)
  note a = half_open_admits_and_failure_reopens
    [of breaker_open 31000 refused_error "\<lparr> clock = 31000, netCalls = 0, queueAdds = 0 \<rparr>"
        always_fails "\<lparr> clock = 31010, netCalls = 0, queueAdds = 0 \<rparr>"]
  note b = half_open_admits_and_failure_reopens
    [of breaker_half_open 40000 refused_error world0 always_fails world0]
  have f: "always_fails \<lparr> clock = 31000, netCalls = 0, queueAdds = 0 \<rparr>
           = (Inl refused_error, \<lparr> clock = 31010, netCalls = 0, queueAdds = 0 \<rparr>)"
    by (simp add: always_fails_def)
  show ?thesis
    using a b o h rt f by (auto split: prod.splits)
qed

text \<open>
  Counterexample to C5 as stated: while the first probe is outstanding (the breaker is
  HALF_OPEN and the probe has not settled) a second call is let through as well.
\<close>

theorem second_call_admitted_while_probe_outstanding:
  "fst (execute_enter 31000 breaker_open) = Inr ()
   \<and> state (snd (execute_enter 31000 breaker_open)) = HALF_OPEN
   \<and> fst (execute_enter 31001 (snd (execute_enter 31000 breaker_open))) = Inr ()"
  by (simp add: execute_enter_def breaker_open_def new_CircuitBreaker_def)

text \<open>
  C6. A success in state HALF_OPEN sets failureCount and successCount to zero and the state
  to CLOSED; a success in state CLOSED lowers failureCount by exactly one when it is
  positive and leaves it at zero otherwise, and the state stays CLOSED. Both hold for
  \<open>onSuccess\<close> and for a whole protected call (\<open>execute\<close>) that succeeds.
\<close>

theorem onSuccess_half_open_resets_closed_decays:
  "(state cb = HALF_OPEN \<longrightarrow>
      state (onSuccess now cb) = CLOSED \<and> failureCount (onSuccess now cb) = 0 \<and>
      successCount (onSuccess now cb) = 0)
   \<and> (state cb = CLOSED \<longrightarrow>
      state (onSuccess now cb) = CLOSED \<and>
      failureCount (onSuccess now cb) = max 0 (failureCount cb - 1) \<and>
      (0 < failureCount cb \<longrightarrow> failureCount (onSuccess now cb) = failureCount cb - 1) \<and>
      0 \<le> failureCount (onSuccess now cb))
   \<and> (state cb = HALF_OPEN \<and> fn w = (Inr r, w1) \<longrightarrow>
      (case execute fn cb w of (out, cb', w') \<Rightarrow>
         out = Inr r \<and> state cb' = CLOSED \<and> failureCount cb' = 0 \<and> successCount cb' = 0))
   \<and> (state cb = CLOSED \<and> fn w = (Inr r, w1) \<longrightarrow>
      (case execute fn cb w of (out, cb', w') \<Rightarrow>
         out = Inr r \<and> state cb' = CLOSED \<and> failureCount cb' = max 0 (failureCount cb - 1)))"
  by (simp add: onSuccess_def reset_def execute_def execute_enter_def execute_exit_def)


theorem onSuccess_half_open_resets_closed_decays_witness:
  "state (onSuccess 50 breaker_half_open) = CLOSED
   \<and> failureCount (onSuccess 50 breaker_half_open) = 0
   \<and> successCount (onSuccess 50 breaker_half_open) = 0
   \<and> failureCount (onSuccess 50 (breaker_closed 3)) = 2
   \<and> failureCount (onSuccess 50 (breaker_closed 0)) = 0
   \<and> failureCount (fst (snd (execute (\<lambda>w. (Inr JNull, w)) (breaker_closed 3) world0))) = 2
   \<and> state (fst (snd (execute (\<lambda>w. (Inr JNull, w)) breaker_half_open world0))) = CLOSED"
proof -
  have h: "state breaker_half_open = HALF_OPEN"
    by (simp add: breaker_half_open_def)
  have c3: "state (breaker_closed 3) = CLOSED" and c0: "state (breaker_closed 0) = CLOSED"
    by (simp_all add: breaker_closed_def new_CircuitBreaker_def)
  have f3: "failureCount (breaker_closed 3) = 3" and f0: "failureCount (breaker_closed 0) = 0"
    by (simp_all add: breaker_closed_def)
  note a = onSuccess_half_open_resets_closed_decays
    [of breaker_half_open 50 "\<lambda>w. (Inr JNull, w)" world0 JNull world0]
  note b = onSuccess_half_open_resets_closed_decays
    [of "breaker_closed 3" 50 "\<lambda>w. (Inr JNull, w)" world0 JNull world0]
  note c = onSuccess_half_open_resets_closed_decays
    [of "breaker_closed 0" 50 "\<lambda>w. (Inr JNull, w)" world0 JNull world0]
  show ?thesis
    using a b c h c3 c0 f3 f0 by (auto split: prod.splits)
qed

text \<open>
  C7. When the response has a truthy \<open>error\<close> property, \<open>set\<close> changes nothing (on a
  \<open>null\<close> or \<open>undefined\<close> request it throws, which changes nothing either). The store
  therefore never holds an error response: this holds for a new proxy manager, every
  \<open>processRequest\<close> keeps it, and a lookup in such a store never returns a response with
  an error. And when a forwarded request is answered by the upstream with an error
  payload, the cache is as the lookup left it and a repeat of the request, at any later
  time, is forwarded again.
\<close>

theorem error_responses_are_never_cached:
  "(truthy (prop_of response ''error'') \<longrightarrow>
      cache_set sid req response now cm = (if nullish req then Inl type_error else Inr cm))
   \<and> cache_clean (cacheManager (new_ProxyManager cfg))
   \<and> (cache_clean (cacheManager pm) \<longrightarrow>
        cache_clean (cacheManager (fst (snd (processRequest post sid req pm w)))))
   \<and> (cache_clean cm \<and> cache_get sid req now cm = Inr (cached, cm') \<longrightarrow>
        \<not> truthy (prop_of cached ''error''))
   \<and> (isValidMCPRequest req
       \<and> cache_get sid req (clock w) (cacheManager pm) = Inr (JNull, cm1)
       \<and> fst (execute_enter (clock w) (fst (getBreaker sid (clock w) pm))) = Inr ()
       \<and> (\<forall>url body v. fst (post url body v) = Inr payload)
       \<and> truthy payload \<and> typeof_object payload \<and> truthy (prop_of payload ''error'') \<longrightarrow>
      (case processRequest post sid req pm w of
         (r, pm1, w1) \<Rightarrow>
           netCalls w1 = netCalls w + 1 \<and> cacheManager pm1 = cm1 \<and>
           (\<forall>post2 w2. netCalls (snd (snd (processRequest post2 sid req pm1 w2)))
                          = netCalls w2 + 1)))"
proof (intro conjI impI)
  assume "truthy (prop_of response ''error'')"
  then show "cache_set sid req response now cm = (if nullish req then Inl type_error else Inr cm)"
    by (rule cache_set_error_noop)
next
  show "cache_clean (cacheManager (new_ProxyManager cfg))"
    by (simp add: cache_clean_def new_ProxyManager_def new_CacheManager_def)
next
  assume "cache_clean (cacheManager pm)"
  then show "cache_clean (cacheManager (fst (snd (processRequest post sid req pm w))))"
    by (simp add: processRequest_state try_block_clean)
next
  assume "cache_clean cm \<and> cache_get sid req now cm = Inr (cached, cm')"
  then show "\<not> truthy (prop_of cached ''error'')"
    using cache_get_clean by blast
next
  assume a: "isValidMCPRequest req
       \<and> cache_get sid req (clock w) (cacheManager pm) = Inr (JNull, cm1)
       \<and> fst (execute_enter (clock w) (fst (getBreaker sid (clock w) pm))) = Inr ()
       \<and> (\<forall>url body v. fst (post url body v) = Inr payload)
       \<and> truthy payload \<and> typeof_object payload \<and> truthy (prop_of payload ''error'')"
  then have valid: "isValidMCPRequest req"
    and miss: "cache_get sid req (clock w) (cacheManager pm) = Inr (JNull, cm1)"
    by simp_all
  from a obtain cbS dt where
    st: "snd (processRequest post sid req pm w) =
           ((snd (getBreaker sid (clock w) pm))
              \<lparr> cacheManager := cm1,
                breakers := (breakers (snd (getBreaker sid (clock w) pm)))(sid \<mapsto> cbS) \<rparr>,
            w\<lparr> queueAdds := queueAdds w + 1, clock := clock w + dt, netCalls := netCalls w + 1 \<rparr>)"
    and closed: "state cbS = CLOSED"
    using error_payload_not_cached[of req sid w pm cm1 post payload] by blast
  let ?pm1 = "(snd (getBreaker sid (clock w) pm))
              \<lparr> cacheManager := cm1,
                breakers := (breakers (snd (getBreaker sid (clock w) pm)))(sid \<mapsto> cbS) \<rparr>"
  have again: "netCalls (snd (snd (processRequest post2 sid req ?pm1 w2))) = netCalls w2 + 1"
    for post2 w2
  proof -
    obtain cm2 where m2: "cache_get sid req (clock w2) (cacheManager ?pm1) = Inr (JNull, cm2)"
      using cache_miss_persists[OF miss, of "clock w2"] by auto
    have "fst (execute_enter (clock w2) (fst (getBreaker sid (clock w2) ?pm1))) = Inr ()"
      using closed by (simp add: getBreaker_def execute_enter_closed)
    from forwarded_netCalls[OF valid m2 this] show ?thesis .
  qed
  show "case processRequest post sid req pm w of
         (r, pm1, w1) \<Rightarrow>
           netCalls w1 = netCalls w + 1 \<and> cacheManager pm1 = cm1 \<and>
           (\<forall>post2 w2. netCalls (snd (snd (processRequest post2 sid req pm1 w2)))
                          = netCalls w2 + 1)"
    using st again by (auto split: prod.splits)
qed

theorem error_responses_are_never_cached_witness:
  "cache_set ''X'' req_list rpc_error_payload 1000 new_CacheManager = Inr new_CacheManager
   \<and> cache_clean (cacheManager (fst (snd (processRequest post_ok ''X'' req_list pm0 world0))))
   \<and> (case processRequest post_rpc_error ''X'' req_list pm0 world0 of
         (r, pm1, w1) \<Rightarrow>
           r = Inr rpc_error_payload \<and> netCalls w1 = 1 \<and> entries (cacheManager pm1) = [] \<and>
           netCalls (snd (snd (processRequest post_rpc_error ''X'' req_list pm1 w1))) = 2)"
proof -
  note inst = error_responses_are_never_cached
    [where response = rpc_error_payload and sid = "''X''" and req = req_list and now = 1000
       and cm = new_CacheManager and cfg = default_config and pm = pm0 and post = post_rpc_error
       and w = world0 and cached = JNull and cm' = "new_CacheManager\<lparr> misses := 1 \<rparr>"
       and ?cm1.0 = "new_CacheManager\<lparr> misses := 1 \<rparr>" and payload = rpc_error_payload]
  note inst_ok = error_responses_are_never_cached
    [where response = rpc_error_payload and sid = "''X''" and req = req_list and now = 1000
       and cm = new_CacheManager and cfg = default_config and pm = pm0 and post = post_ok
       and w = world0 and cached = JNull and cm' = "new_CacheManager\<lparr> misses := 1 \<rparr>"
       and ?cm1.0 = "new_CacheManager\<lparr> misses := 1 \<rparr>" and payload = rpc_error_payload]
  have e: "truthy (prop_of rpc_error_payload ''error'')"
    and obj: "truthy rpc_error_payload" "typeof_object rpc_error_payload"
    by (simp_all add: rpc_error_payload_def)
  have nn: "\<not> nullish req_list" by (simp add: req_list_def)
  have valid: "isValidMCPRequest req_list"
    by (simp add: isValidMCPRequest_def req_list_def)
  have miss: "cache_get ''X'' req_list (clock world0) (cacheManager pm0)
              = Inr (JNull, new_CacheManager\<lparr> misses := 1 \<rparr>)"
    by (simp add: request_defs generateCacheKey_def nc_get_def start_defs req_list_def)
  have adm: "fst (execute_enter (clock world0) (fst (getBreaker ''X'' (clock world0) pm0))) = Inr ()"
    by (simp add: proxy_defs start_defs)
  have up: "\<forall>url body v. fst (post_rpc_error url body v) = Inr rpc_error_payload"
    by (simp add: post_rpc_error_def)
  have clean0: "cache_clean (cacheManager pm0)"
    using inst by (simp add: pm0_def)
  have first: "fst (processRequest post_rpc_error ''X'' req_list pm0 world0) = Inr rpc_error_payload"
    by (simp add: request_defs proxy_defs start_defs generateCacheKey_def nc_get_def
        req_list_def post_rpc_error_def rpc_error_payload_def)
  have a: "cache_set ''X'' req_list rpc_error_payload 1000 new_CacheManager = Inr new_CacheManager"
    using inst e nn by simp
  have b: "cache_clean (cacheManager (fst (snd (processRequest post_ok ''X'' req_list pm0 world0))))"
    using inst_ok clean0 by simp
  have c: "case processRequest post_rpc_error ''X'' req_list pm0 world0 of
         (r, pm1, w1) \<Rightarrow>
           netCalls w1 = netCalls world0 + 1 \<and> cacheManager pm1 = new_CacheManager\<lparr> misses := 1 \<rparr> \<and>
           (\<forall>post2 w2. netCalls (snd (snd (processRequest post2 ''X'' req_list pm1 w2)))
                          = netCalls w2 + 1)"
    using inst valid miss adm up e obj by simp
  have "case processRequest post_rpc_error ''X'' req_list pm0 world0 of
         (r, pm1, w1) \<Rightarrow>
           r = Inr rpc_error_payload \<and> netCalls w1 = 1 \<and> entries (cacheManager pm1) = [] \<and>
           netCalls (snd (snd (processRequest post_rpc_error ''X'' req_list pm1 w1))) = 2"
    using c first by (auto simp: world0_def new_CacheManager_def split: prod.splits)
  with a b show ?thesis by simp
qed

text \<open>
  C8. The retry condition holds exactly for an error the library classifies as a network
  error or one that carries a response with status 500 or above (a status above 599 is
  not a valid HTTP status and is to be handled as a 5xx one), so every 5xx response is
  retried and, with a classification that like the library's never holds of an error
  whose response has a status below 500, no 4xx response is. The delay before retry \<open>n\<close>
  is \<open>min (retryDelay * 2 ^ (n - 1)) maxRetryDelay\<close>, at most \<open>maxRetryDelay\<close> and
  non-decreasing in \<open>n\<close> for a non-negative \<open>retryDelay\<close>. A call is repeated as long as
  its failures meet the retry condition, up to \<open>retryAttempts\<close> retries: when the first
  \<open>m\<close> attempts fail in this way and attempt \<open>m\<close> succeeds, fails otherwise, or \<open>m\<close> is
  \<open>retryAttempts\<close>, the outcome is that of attempt \<open>m\<close> after the delays of retries 1
  to \<open>m\<close>.
\<close>

theorem retry_only_transient_with_capped_backoff:
  "(retryCondition net e \<longleftrightarrow>
      net e \<or> (\<exists>status payload. err_response e = Some (status, payload) \<and> 500 \<le> status))
   \<and> (err_response e = Some (status, payload) \<and> 500 \<le> status \<and> status \<le> 599 \<longrightarrow>
        retryCondition net e)
   \<and> (err_response e = Some (status, payload) \<and> 400 \<le> status \<and> status < 500 \<and> \<not> net e \<longrightarrow>
        \<not> retryCondition net e)
   \<and> ((\<forall>e'. net e' \<longrightarrow> (case err_response e' of None \<Rightarrow> True | Some (st, p) \<Rightarrow> 500 \<le> st))
       \<and> err_response e = Some (status, payload) \<and> status < 500 \<longrightarrow>
        \<not> retryCondition net e)
   \<and> (1 \<le> n \<longrightarrow>
        retryDelay_callback cfg n = min (retryDelay cfg * 2 ^ (n - 1)) (maxRetryDelay cfg))
   \<and> retryDelay_callback cfg n \<le> maxRetryDelay cfg
   \<and> (0 \<le> retryDelay cfg \<and> 1 \<le> n \<longrightarrow>
        retryDelay_callback cfg n \<le> retryDelay_callback cfg (n + 1))
   \<and> (case post_with_retry cfg net attempt of
         (res, delays) \<Rightarrow>
           length delays \<le> retryAttempts cfg \<and>
           (\<forall>k<length delays.
              delays ! k = retryDelay_callback cfg (k + 1) \<and>
              (\<exists>e. attempt k = Inl e \<and> retryCondition net e)))
   \<and> (m \<le> retryAttempts cfg
       \<and> (\<forall>k<m. \<exists>e. attempt k = Inl e \<and> retryCondition net e)
       \<and> (m = retryAttempts cfg \<or> (\<exists>x. attempt m = Inr x)
            \<or> (\<exists>e. attempt m = Inl e \<and> \<not> retryCondition net e)) \<longrightarrow>
        post_with_retry cfg net attempt
          = (attempt m, map (retryDelay_callback cfg) [1..<Suc m]))"
proof (intro conjI)
  show "retryCondition net e \<longleftrightarrow>
      net e \<or> (\<exists>status payload. err_response e = Some (status, payload) \<and> 500 \<le> status)"
    by (auto simp: retryCondition_def split: option.splits)
  show "err_response e = Some (status, payload) \<and> 500 \<le> status \<and> status \<le> 599 \<longrightarrow>
        retryCondition net e"
    by (auto simp: retryCondition_def)
  show "err_response e = Some (status, payload) \<and> 400 \<le> status \<and> status < 500 \<and> \<not> net e \<longrightarrow>
        \<not> retryCondition net e"
    by (auto simp: retryCondition_def)
  show "(\<forall>e'. net e' \<longrightarrow> (case err_response e' of None \<Rightarrow> True | Some (st, p) \<Rightarrow> 500 \<le> st))
       \<and> err_response e = Some (status, payload) \<and> status < 500 \<longrightarrow>
        \<not> retryCondition net e"
  proof
    assume a: "(\<forall>e'. net e' \<longrightarrow> (case err_response e' of None \<Rightarrow> True | Some (st, p) \<Rightarrow> 500 \<le> st))
       \<and> err_response e = Some (status, payload) \<and> status < 500"
    then have "net e \<longrightarrow> (case err_response e of None \<Rightarrow> True | Some (st, p) \<Rightarrow> 500 \<le> st)"
      by blast
    with a have "\<not> net e" by auto
    with a show "\<not> retryCondition net e" by (auto simp: retryCondition_def)
  qed
  show "1 \<le> n \<longrightarrow>
        retryDelay_callback cfg n = min (retryDelay cfg * 2 ^ (n - 1)) (maxRetryDelay cfg)"
    by (simp add: retryDelay_callback_def)
  show "retryDelay_callback cfg n \<le> maxRetryDelay cfg"
    by (simp add: retryDelay_callback_def)
  show "0 \<le> retryDelay cfg \<and> 1 \<le> n \<longrightarrow>
        retryDelay_callback cfg n \<le> retryDelay_callback cfg (n + 1)"
  proof
    assume a: "0 \<le> retryDelay cfg \<and> 1 \<le> n"
    have "(2::int) ^ (n - 1) \<le> 2 ^ n"
      by (rule power_increasing) simp_all
    then have "retryDelay cfg * 2 ^ (n - 1) \<le> retryDelay cfg * 2 ^ n"
      using a by (simp add: mult_left_mono)
    then show "retryDelay_callback cfg n \<le> retryDelay_callback cfg (n + 1)"
      by (simp add: retryDelay_callback_def min_le_iff_disj)
  qed
  show "case post_with_retry cfg net attempt of
         (res, delays) \<Rightarrow>
           length delays \<le> retryAttempts cfg \<and>
           (\<forall>k<length delays.
              delays ! k = retryDelay_callback cfg (k + 1) \<and>
              (\<exists>e. attempt k = Inl e \<and> retryCondition net e))"
    using axios_retry_bounded[where r = "retryAttempts cfg" and k = 0
        and cond = "retryCondition net" and delay = "retryDelay_callback cfg" and attempt = attempt]
    by (simp add: post_with_retry_def)
  show "m \<le> retryAttempts cfg
       \<and> (\<forall>k<m. \<exists>e. attempt k = Inl e \<and> retryCondition net e)
       \<and> (m = retryAttempts cfg \<or> (\<exists>x. attempt m = Inr x)
            \<or> (\<exists>e. attempt m = Inl e \<and> \<not> retryCondition net e)) \<longrightarrow>
        post_with_retry cfg net attempt
          = (attempt m, map (retryDelay_callback cfg) [1..<Suc m])"
  proof
    assume a: "m \<le> retryAttempts cfg
       \<and> (\<forall>k<m. \<exists>e. attempt k = Inl e \<and> retryCondition net e)
       \<and> (m = retryAttempts cfg \<or> (\<exists>x. attempt m = Inr x)
            \<or> (\<exists>e. attempt m = Inl e \<and> \<not> retryCondition net e))"
    have "axios_retry (retryAttempts cfg) 0 (retryCondition net) (retryDelay_callback cfg) attempt
            = (attempt (0 + m), map (retryDelay_callback cfg) [Suc 0..<Suc (0 + m)])"
      by (rule axios_retry_exact) (use a in simp_all)
    then show "post_with_retry cfg net attempt
          = (attempt m, map (retryDelay_callback cfg) [1..<Suc m])"
      by (simp add: post_with_retry_def)
  qed
qed

text \<open>
  With the default configuration: a 503 reply on every attempt is retried three times,
  after 500, 1000 and 2000 ms; two 503 replies and then a good one give the good one
  after two retries; a 404 reply is not retried.
\<close>

theorem retry_only_transient_with_capped_backoff_witness:
  "\<not> retryCondition no_response (http_error 404)
   \<and> retryCondition no_response (http_error 503)
   \<and> retryCondition no_response refused_error
   \<and> retryDelay_callback default_config 2 = 1000
   \<and> retryDelay_callback default_config 2 \<le> retryDelay_callback default_config 3
   \<and> retryDelay_callback default_config 3 \<le> 3000
   \<and> post_with_retry default_config no_response (\<lambda>k. Inl (http_error 503) :: js_error + jsval)
       = (Inl (http_error 503), [500, 1000, 2000])
   \<and> post_with_retry default_config no_response
         (\<lambda>k. if k < 2 then Inl (http_error 503) else Inr ok_payload)
       = (Inr ok_payload, [500, 1000])
   \<and> post_with_retry default_config no_response (\<lambda>k. Inl (http_error 404) :: js_error + jsval)
       = (Inl (http_error 404), [])"
proof -
  note c1 = conjunct1 and c2 = conjunct2
  note i404 = retry_only_transient_with_capped_backoff
    [where net = no_response and e = "http_error 404" and status = 404 and payload = JNull
       and n = 2 and cfg = default_config and m = 0
       and attempt = "\<lambda>k. Inl (http_error 404) :: js_error + jsval"]
  note i503 = retry_only_transient_with_capped_backoff
    [where net = no_response and e = "http_error 503" and status = 503 and payload = JNull
       and n = 3 and cfg = default_config and m = 3
       and attempt = "\<lambda>k. Inl (http_error 503) :: js_error + jsval"]
  note iok = retry_only_transient_with_capped_backoff
    [where net = no_response and e = "http_error 503" and status = 503 and payload = JNull
       and n = 3 and cfg = default_config and m = 2
       and attempt = "\<lambda>k. if k < 2 then Inl (http_error 503) else Inr ok_payload"]
  note iref = retry_only_transient_with_capped_backoff
    [where net = no_response and e = refused_error and status = 0 and payload = JNull
       and n = 2 and cfg = default_config and m = 0
       and attempt = "\<lambda>k. Inl (http_error 503) :: js_error + jsval"]
  have lib: "\<forall>e'. no_response e' \<longrightarrow>
               (case err_response e' of None \<Rightarrow> True | Some (st, p) \<Rightarrow> 500 \<le> st)"
    by (simp add: no_response_def)
  have h404: "err_response (http_error 404) = Some (404, JNull) \<and> (404::int) < 500"
    by (simp add: http_error_def)
  have h503: "err_response (http_error 503) = Some (503, JNull) \<and> (500::int) \<le> 503
              \<and> (503::int) \<le> 599"
    by (simp add: http_error_def)
  have href: "no_response refused_error" by (simp add: no_response_def refused_error_def)
  have cfg: "retryDelay default_config = 500" "maxRetryDelay default_config = 3000"
    "retryAttempts default_config = 3"
    by (simp_all add: default_config_def)
  have a: "\<not> retryCondition no_response (http_error 404)"
    using i404[THEN c2, THEN c2, THEN c2, THEN c1] lib h404 by blast
  have b: "retryCondition no_response (http_error 503)"
    using i503[THEN c2, THEN c1] h503 by (rule mp)
  have c: "retryCondition no_response refused_error"
    using iref[THEN c1] href by blast
  have "retryDelay_callback default_config 2
          = min (retryDelay default_config * 2 ^ (2 - 1)) (maxRetryDelay default_config)"
    using i404[THEN c2, THEN c2, THEN c2, THEN c2, THEN c1] by simp
  then have d: "retryDelay_callback default_config 2 = 1000"
    by (simp add: cfg)
  have e: "retryDelay_callback default_config 2 \<le> retryDelay_callback default_config 3"
    using i404[THEN c2, THEN c2, THEN c2, THEN c2, THEN c2, THEN c2, THEN c1] cfg by simp
  have f: "retryDelay_callback default_config 3 \<le> 3000"
    using i503[THEN c2, THEN c2, THEN c2, THEN c2, THEN c2, THEN c1] cfg by simp
  have g: "post_with_retry default_config no_response
             (\<lambda>k. Inl (http_error 503) :: js_error + jsval)
           = (Inl (http_error 503), [500, 1000, 2000])"
    using i503[THEN c2, THEN c2, THEN c2, THEN c2, THEN c2, THEN c2, THEN c2, THEN c2] b
    by (simp add: cfg retryDelay_callback_def upt_conv_Cons)
  have h: "post_with_retry default_config no_response
             (\<lambda>k. if k < 2 then Inl (http_error 503) else Inr ok_payload)
           = (Inr ok_payload, [500, 1000])"
    using iok[THEN c2, THEN c2, THEN c2, THEN c2, THEN c2, THEN c2, THEN c2, THEN c2] b
    by (simp add: cfg retryDelay_callback_def upt_conv_Cons)
  have i: "post_with_retry default_config no_response
             (\<lambda>k. Inl (http_error 404) :: js_error + jsval)
           = (Inl (http_error 404), [])"
    using i404[THEN c2, THEN c2, THEN c2, THEN c2, THEN c2, THEN c2, THEN c2, THEN c2] a
    by (simp add: cfg retryDelay_callback_def upt_conv_Cons)
  from a b c d e f g h i show ?thesis by simp
qed

text \<open>
  C9 (as amended). A forwarded call whose reply payload is not an object (or array) fails
  with the format error after a single upstream call, and \<open>processRequest\<close> answers with
  the internal error, code -32603.
\<close>

theorem malformed_payload_surfaces_as_internal_error:
  "(post (difyBaseUrl cfg @ ''/mcp/server/'' @ sid @ ''/mcp'') req w = (Inr payload, dt)
      \<and> \<not> (truthy payload \<and> typeof_object payload) \<longrightarrow>
      forwardRequest post cfg sid req w =
        (Inl format_error, w\<lparr> clock := clock w + dt, netCalls := netCalls w + 1 \<rparr>))
   \<and> (isValidMCPRequest req
       \<and> cache_get sid req (clock w) (cacheManager pm) = Inr (JNull, cm1)
       \<and> fst (execute_enter (clock w) (fst (getBreaker sid (clock w) pm))) = Inr ()
       \<and> (\<forall>url body v. fst (post url body v) = Inr payload)
       \<and> \<not> (truthy payload \<and> typeof_object payload) \<longrightarrow>
      (\<exists>resp pm' w'. processRequest post sid req pm w = (Inr resp, pm', w')
         \<and> response_code resp = Some (- 32603) \<and> netCalls w' = netCalls w + 1))"
proof (intro conjI impI)
  assume "post (difyBaseUrl cfg @ ''/mcp/server/'' @ sid @ ''/mcp'') req w = (Inr payload, dt)
      \<and> \<not> (truthy payload \<and> typeof_object payload)"
  then show "forwardRequest post cfg sid req w =
        (Inl format_error, w\<lparr> clock := clock w + dt, netCalls := netCalls w + 1 \<rparr>)"
    by (simp add: forwardRequest_bad_payload)
next
  assume a: "isValidMCPRequest req
       \<and> cache_get sid req (clock w) (cacheManager pm) = Inr (JNull, cm1)
       \<and> fst (execute_enter (clock w) (fst (getBreaker sid (clock w) pm))) = Inr ()
       \<and> (\<forall>url body v. fst (post url body v) = Inr payload)
       \<and> \<not> (truthy payload \<and> typeof_object payload)"
  let ?wq = "w\<lparr> queueAdds := queueAdds w + 1 \<rparr>"
  let ?url = "difyBaseUrl (config pm) @ ''/mcp/server/'' @ sid @ ''/mcp''"
  obtain cb1 where adm: "execute_enter (clock w) (fst (getBreaker sid (clock w) pm)) = (Inr (), cb1)"
    using a by (metis prod.collapse)
  obtain dt where p: "post ?url req ?wq = (Inr payload, dt)"
    using a by (metis prod.collapse)
  let ?w1 = "?wq\<lparr> clock := clock ?wq + dt, netCalls := netCalls ?wq + 1 \<rparr>"
  have fwd: "forwardRequest post (config pm) sid req ?wq = (Inl format_error, ?w1)"
    by (rule forwardRequest_bad_payload[where post = post and cfg = "config pm" and sid = sid
          and req = req and payload = payload and dt = dt, OF p]) (use a in simp)
  have nn: "\<not> nullish req" using a by (simp add: isValid_not_nullish)
  from a have v: "isValidMCPRequest req"
    and m: "cache_get sid req (clock w) (cacheManager pm) = Inr (JNull, cm1)"
    by simp_all
  note tb = try_block_forwarded[OF v m adm fwd]
  have plain: "response_code (handleProxyError format_error sid) = Some (- 32603)"
    by (simp add: handleProxyError_plain format_error_def)
  show "\<exists>resp pm' w'. processRequest post sid req pm w = (Inr resp, pm', w')
         \<and> response_code resp = Some (- 32603) \<and> netCalls w' = netCalls w + 1"
    using a tb plain
    by (simp add: processRequest_via_try_block[OF nn] Let_def format_error_def)
qed

theorem malformed_payload_surfaces_as_internal_error_witness:
  "forwardRequest post_html default_config ''X'' req_call world0
     = (Inl format_error, \<lparr> clock = 1010, netCalls = 1, queueAdds = 0 \<rparr>)
   \<and> (\<exists>resp pm' w'. processRequest post_html ''X'' req_call pm0 world0 = (Inr resp, pm', w')
         \<and> response_code resp = Some (- 32603) \<and> netCalls w' = 1)"
proof -
  note inst = malformed_payload_surfaces_as_internal_error
    [where post = post_html and cfg = default_config and sid = "''X''" and req = req_call
       and w = world0 and payload = "JStr ''<html>''" and dt = 10 and pm = pm0
       and ?cm1.0 = "cacheManager pm0"]
  have p: "post_html (difyBaseUrl default_config @ ''/mcp/server/'' @ ''X'' @ ''/mcp'') req_call world0
           = (Inr (JStr ''<html>''), 10)"
    by (simp add: post_html_def)
  have bad: "\<not> (truthy (JStr ''<html>'') \<and> typeof_object (JStr ''<html>''))" by simp
  have valid: "isValidMCPRequest req_call"
    by (simp add: isValidMCPRequest_def req_call_def)
  have miss: "cache_get ''X'' req_call (clock world0) (cacheManager pm0)
              = Inr (JNull, cacheManager pm0)"
    by (simp add: request_defs req_call_def)
  have adm: "fst (execute_enter (clock world0) (fst (getBreaker ''X'' (clock world0) pm0))) = Inr ()"
    by (simp add: proxy_defs start_defs)
  have up: "\<forall>url body v. fst (post_html url body v) = Inr (JStr ''<html>'')"
    by (simp add: post_html_def)
  have a: "forwardRequest post_html default_config ''X'' req_call world0
     = (Inl format_error, \<lparr> clock = 1010, netCalls = 1, queueAdds = 0 \<rparr>)"
    using inst p bad by (simp add: world0_def)
  have b: "\<exists>resp pm' w'. processRequest post_html ''X'' req_call pm0 world0 = (Inr resp, pm', w')
         \<and> response_code resp = Some (- 32603) \<and> netCalls w' = 1"
    using inst valid miss adm up bad by (simp add: world0_def)
  from a b show ?thesis by simp
qed

text \<open>
  Counterexample to C9 as stated: an upstream that replies with a string gets the code
  -32603, not -32004.
\<close>

theorem malformed_payload_gives_internal_error_code:
  "fst (processRequest post_html ''X'' req_call pm0 world0)
     = Inr (JObj [(''jsonrpc'', JStr ''2.0''),
                  (''error'', JObj [(''code'', JNum (- 32603)),
                                    (''message'', JStr ''internal server error''),
                                    (''data'', JObj [(''server_id'', JStr ''X'')])])])"
  by (simp add: request_defs proxy_defs start_defs req_call_def post_html_def format_error_def
      handleProxyError_def createErrorResponse_def INTERNAL_ERROR_def)

text \<open>
  C10 (as amended). The error responses \<open>processRequest\<close> builds itself, for an invalid
  request (-32600) and for an open breaker (-32003), carry an \<open>id\<close> equal to the request's
  \<open>id\<close> when that is neither \<open>null\<close> nor absent, and no \<open>id\<close> key otherwise.
\<close>

theorem own_error_responses_echo_non_null_id:
  "(\<not> nullish req \<and> \<not> isValidMCPRequest req \<longrightarrow>
      (\<exists>resp. processRequest post sid req pm w = (Inr resp, pm, w)
         \<and> response_code resp = Some (- 32600)
         \<and> has_key resp ''id'' = (\<not> nullish (prop_of req ''id''))
         \<and> (has_key resp ''id'' \<longrightarrow> prop_of resp ''id'' = prop_of req ''id'')))
   \<and> (isValidMCPRequest req
       \<and> cache_get sid req (clock w) (cacheManager pm) = Inr (JNull, cm1)
       \<and> breakers pm sid = Some cb \<and> state cb = OPEN \<and> clock w < nextAttempt cb \<longrightarrow>
      (\<exists>resp pm' w'. processRequest post sid req pm w = (Inr resp, pm', w')
         \<and> response_code resp = Some (- 32003)
         \<and> has_key resp ''id'' = (prop_of req ''id'' \<noteq> JNull)
         \<and> (has_key resp ''id'' \<longrightarrow> prop_of resp ''id'' = prop_of req ''id'')))"
proof (intro conjI impI)
  assume a: "\<not> nullish req \<and> \<not> isValidMCPRequest req"
  then have "processRequest post sid req pm w =
      (Inr (createErrorResponse INVALID_REQUEST ''invalid MCP request format'' JNull
              (prop_of req ''id'')), pm, w)"
    by (simp add: processRequest_def try_block_def getProp_not_nullish)
  then show "\<exists>resp. processRequest post sid req pm w = (Inr resp, pm, w)
         \<and> response_code resp = Some (- 32600)
         \<and> has_key resp ''id'' = (\<not> nullish (prop_of req ''id''))
         \<and> (has_key resp ''id'' \<longrightarrow> prop_of resp ''id'' = prop_of req ''id'')"
    by (simp add: response_code_createErrorResponse INVALID_REQUEST_def id_of_createErrorResponse)
next
  assume a: "isValidMCPRequest req
       \<and> cache_get sid req (clock w) (cacheManager pm) = Inr (JNull, cm1)
       \<and> breakers pm sid = Some cb \<and> state cb = OPEN \<and> clock w < nextAttempt cb"
  then have nn: "\<not> nullish req" by (simp add: isValid_not_nullish)
  from a have idv: "nullish (prop_of req ''id'') = (prop_of req ''id'' = JNull)"
    by (cases "prop_of req ''id''") (simp_all add: isValidMCPRequest_def)
  have "processRequest post sid req pm w =
     (Inr (createErrorResponse CIRCUIT_BREAKER_OPEN
             (err_message (circuit_open_error (serverId cb)))
             (JObj [(''server_id'', JStr sid)]) (prop_of req ''id'')),
      pm\<lparr> cacheManager := cm1,
          breakers := (breakers pm)(sid \<mapsto> cb\<lparr> totalRequests := totalRequests cb + 1 \<rparr>) \<rparr>,
      w\<lparr> queueAdds := queueAdds w + 1 \<rparr>)"
    using a nn
    by (simp add: processRequest_def try_block_def getBreaker_def globalQueue_add_def
        execute_open_early catch_block_def getProp_not_nullish err_code_circuit_open)
  then show "\<exists>resp pm' w'. processRequest post sid req pm w = (Inr resp, pm', w')
         \<and> response_code resp = Some (- 32003)
         \<and> has_key resp ''id'' = (prop_of req ''id'' \<noteq> JNull)
         \<and> (has_key resp ''id'' \<longrightarrow> prop_of resp ''id'' = prop_of req ''id'')"
    by (simp add: response_code_createErrorResponse CIRCUIT_BREAKER_OPEN_def
        id_of_createErrorResponse idv)
qed

theorem own_error_responses_echo_non_null_id_witness:
  "(\<exists>resp. processRequest post_ok ''X'' req_bad_version pm0 world0 = (Inr resp, pm0, world0)
       \<and> response_code resp = Some (- 32600) \<and> has_key resp ''id'' \<and> prop_of resp ''id'' = JNum 7)
   \<and> (\<exists>resp. processRequest post_ok ''X'' req_bad_version_null_id pm0 world0
               = (Inr resp, pm0, world0)
       \<and> response_code resp = Some (- 32600) \<and> \<not> has_key resp ''id'')
   \<and> (\<exists>resp pm' w'. processRequest post_refused ''Y'' req_call pm_tripped world_tripped
                      = (Inr resp, pm', w')
       \<and> response_code resp = Some (- 32003) \<and> has_key resp ''id'' \<and> prop_of resp ''id'' = JNum 7)"
proof -
  let ?cb = "(new_CircuitBreaker ''Y'' (defaultOptions pm0) 1000)
              \<lparr> state := OPEN, failureCount := 5, nextAttempt := 31050,
                lastFailureTime := Some 1050, totalRequests := 5, totalFailures := 5,
                circuitBreakerTrips := 1 \<rparr>"
  have pm: "pm_tripped = pm0\<lparr> breakers := (breakers pm0)(''Y'' \<mapsto> ?cb) \<rparr>"
    and w: "world_tripped = \<lparr> clock = 1050, netCalls = 5, queueAdds = 5 \<rparr>"
    unfolding pm_tripped_def world_tripped_def tripped_state by simp_all
  note i1 = own_error_responses_echo_non_null_id
    [where req = req_bad_version and post = post_ok and sid = "''X''" and pm = pm0 and w = world0
       and ?cm1.0 = "cacheManager pm0" and cb = ?cb]
  note i2 = own_error_responses_echo_non_null_id
    [where req = req_bad_version_null_id and post = post_ok and sid = "''X''" and pm = pm0
       and w = world0 and ?cm1.0 = "cacheManager pm0" and cb = ?cb]
  note i3 = own_error_responses_echo_non_null_id
    [where req = req_call and post = post_refused and sid = "''Y''" and pm = pm_tripped
       and w = world_tripped and ?cm1.0 = "cacheManager pm_tripped" and cb = ?cb]
  have h1: "\<not> nullish req_bad_version \<and> \<not> isValidMCPRequest req_bad_version"
    "prop_of req_bad_version ''id'' = JNum 7"
    by (simp_all add: req_bad_version_def isValidMCPRequest_def)
  have h2: "\<not> nullish req_bad_version_null_id \<and> \<not> isValidMCPRequest req_bad_version_null_id"
    "prop_of req_bad_version_null_id ''id'' = JNull"
    by (simp_all add: req_bad_version_null_id_def isValidMCPRequest_def)
  have h3: "isValidMCPRequest req_call" "prop_of req_call ''id'' = JNum 7"
    "cache_get ''Y'' req_call (clock world_tripped) (cacheManager pm_tripped)
       = Inr (JNull, cacheManager pm_tripped)"
    "breakers pm_tripped ''Y'' = Some ?cb" "state ?cb = OPEN"
    "clock world_tripped < nextAttempt ?cb"
    by (simp_all add: isValidMCPRequest_def request_defs req_call_def pm w)
  have a: "\<exists>resp. processRequest post_ok ''X'' req_bad_version pm0 world0 = (Inr resp, pm0, world0)
       \<and> response_code resp = Some (- 32600) \<and> has_key resp ''id'' \<and> prop_of resp ''id'' = JNum 7"
    using i1 h1 by auto
  have b: "\<exists>resp. processRequest post_ok ''X'' req_bad_version_null_id pm0 world0
               = (Inr resp, pm0, world0)
       \<and> response_code resp = Some (- 32600) \<and> \<not> has_key resp ''id''"
    using i2 h2 by auto
  have c: "\<exists>resp pm' w'. processRequest post_refused ''Y'' req_call pm_tripped world_tripped
                      = (Inr resp, pm', w')
       \<and> response_code resp = Some (- 32003) \<and> has_key resp ''id'' \<and> prop_of resp ''id'' = JNum 7"
    using i3 h3 by auto
  from a b c show ?thesis by simp
qed

text \<open>
  Counterexample to C10 as stated: the response to an invalid request whose \<open>id\<close> is
  \<open>null\<close> has no \<open>id\<close> key, and neither has the response to a forwarding failure of a
  request with \<open>id\<close> 7.
\<close>

theorem error_responses_without_id:
  "fst (processRequest post_ok ''X'' req_bad_version_null_id pm0 world0)
     = Inr (JObj [(''jsonrpc'', JStr ''2.0''),
                  (''error'', JObj [(''code'', JNum (- 32600)),
                                    (''message'', JStr ''invalid MCP request format'')])])
   \<and> fst (processRequest post_refused ''X'' req_call pm0 world0)
     = Inr (JObj [(''jsonrpc'', JStr ''2.0''),
                  (''error'', JObj [(''code'', JNum (- 32001)),
                                    (''message'', JStr ''cannot connect to Dify service (X)''),
                                    (''data'', JObj [(''retry_after'', JNum 30),
                                                     (''server_id'', JStr ''X'')])])])"
  by (simp add: request_defs proxy_defs start_defs req_call_def req_bad_version_null_id_def
      post_refused_def post_ok_def refused_error_def handleProxyError_def createErrorResponse_def
      INVALID_REQUEST_def SERVER_UNAVAILABLE_def)

end
